theory Spec2Isabelle
  imports Main "HOL-Library.Word" "HOL-Library.Signed_Division"
begin

unbundle bit_operations_syntax

section \<open>Types and constants of \<^verbatim>\<open>threads.h\<close> (Win32 branch)\<close>

text \<open>
  The Win32 branch of the header fixes the representation: \<^verbatim>\<open>tss_t\<close> is
  \<^verbatim>\<open>unsigned long\<close> (the size of a \<^verbatim>\<open>DWORD\<close>, 32 bits), \<^verbatim>\<open>thrd_t\<close> is a
  \<^verbatim>\<open>HANDLE\<close>, \<^verbatim>\<open>int\<close> and \<^verbatim>\<open>long\<close> are 32 bits wide and \<^verbatim>\<open>time_t\<close> is
  64 bits wide. Function pointers and \<^verbatim>\<open>void *\<close> values are opaque addresses, with
  \<open>0\<close> for \<^verbatim>\<open>NULL\<close>. A pointer argument that the code dereferences is an \<open>option\<close>
  of its pointee: \<open>None\<close> is the \<^verbatim>\<open>NULL\<close> pointer.
\<close>

type_synonym c_int = "32 word"
type_synonym DWORD = "32 word"
type_synonym time_t = "64 word"
type_synonym tss_t = "32 word"
type_synonym tss_dtor_t = nat
type_synonym pvoid = nat
type_synonym thrd_t = nat
type_synonym thread_id = nat

definition mtx_plain :: c_int where "mtx_plain = 0"
definition mtx_try :: c_int where "mtx_try = 1"
definition mtx_timed :: c_int where "mtx_timed = 2"
definition mtx_recursive :: c_int where "mtx_recursive = 4"

definition thrd_success :: c_int where "thrd_success = 0"
definition thrd_timedout :: c_int where "thrd_timedout = 1"
definition thrd_error :: c_int where "thrd_error = 2"
definition thrd_busy :: c_int where "thrd_busy = 3"
definition thrd_nomem :: c_int where "thrd_nomem = 4"

definition EMULATED_THREADS_TSS_DTOR_SLOTNUM :: nat where
  "EMULATED_THREADS_TSS_DTOR_SLOTNUM = 64"

definition WAIT_OBJECT_0 :: DWORD where "WAIT_OBJECT_0 = 0"
definition WAIT_FAILED :: DWORD where "WAIT_FAILED = 0xFFFFFFFF"
definition TLS_OUT_OF_INDEXES :: DWORD where "TLS_OUT_OF_INDEXES = 0xFFFFFFFF"

text \<open>
  A failed \<^verbatim>\<open>assert\<close> aborts the process: the call produces no result. This is the
  macro of \<^verbatim>\<open>assert.h\<close> as the sources use it; they do not define \<^verbatim>\<open>NDEBUG\<close>.
\<close>

datatype failure = Assertion_failed

section \<open>Time conversion\<close>

record timespec =
  tv_sec :: time_t
  tv_nsec :: "32 word"

text \<open>
  \<^verbatim>\<open>(ts->tv_sec * 1000U) + (ts->tv_nsec / 1000000L)\<close>: the product and the sum are
  computed in \<^verbatim>\<open>time_t\<close> (64 bits, wrapping), the quotient in \<^verbatim>\<open>long\<close>, where C
  truncates towards zero (\<open>sdiv\<close>), and is then sign-extended.
\<close>

definition impl_timespec2msec :: "timespec \<Rightarrow> time_t" where
  "impl_timespec2msec ts =
     tv_sec ts * 1000 + word_of_int (sint (tv_nsec ts) sdiv 1000000)"

text \<open>
  The second argument is the value that \<^verbatim>\<open>timespec_get(&now, TIME_UTC)\<close> stores.
  The comparison is the signed one of \<^verbatim>\<open>time_t\<close>; the cast \<^verbatim>\<open>(DWORD)\<close> keeps the
  low 32 bits.
\<close>

definition impl_abs2relmsec :: "timespec \<Rightarrow> timespec \<Rightarrow> DWORD" where
  "impl_abs2relmsec abs_time now =
     (let abs_ms = impl_timespec2msec abs_time;
          now_ms = impl_timespec2msec now
      in if now_ms <s abs_ms then ucast (abs_ms - now_ms) else 0)"

text \<open>
  The reading of a time stamp in the words of the specification, on unbounded integers:
  seconds times 1000 plus nanoseconds divided by 1000000, truncating.
\<close>

definition spec_msec :: "timespec \<Rightarrow> int" where
  "spec_msec ts = sint (tv_sec ts) * 1000 + sint (tv_nsec ts) sdiv 1000000"


text \<open>
  The millisecond value of a time stamp fits \<^verbatim>\<open>time_t\<close>: the product and the sum of
  \<^verbatim>\<open>impl_timespec2msec\<close> do not leave the signed 64-bit range.
\<close>

definition msec_fits_time_t :: "timespec \<Rightarrow> bool" where
  "msec_fits_time_t ts \<longleftrightarrow> - (2 ^ 63) \<le> spec_msec ts \<and> spec_msec ts < 2 ^ 63"

section \<open>Thread-specific storage\<close>

record impl_tss_dtor_entry =
  key :: tss_t
  dtor :: tss_dtor_t

text \<open>
  The process-wide state of the storage functions: the static array
  \<^verbatim>\<open>impl_tss_dtor_tbl\<close> (a function of the index; only indices below 64 are ever
  used), the TLS indices the operating system currently has allocated, and the value
  every thread holds in every index.
\<close>

record tss_world =
  impl_tss_dtor_tbl :: "nat \<Rightarrow> impl_tss_dtor_entry"
  tls_slots :: "tss_t set"
  tls_value :: "thread_id \<Rightarrow> tss_t \<Rightarrow> pvoid"

text \<open>Static storage is zero-initialised; no index is allocated at process start.\<close>

definition initial_tss_world :: tss_world where
  "initial_tss_world =
     \<lparr>impl_tss_dtor_tbl = (\<lambda>_. \<lparr>key = 0, dtor = 0\<rparr>),
      tls_slots = {},
      tls_value = (\<lambda>_ _. 0)\<rparr>"

subsection \<open>The native calls\<close>

text \<open>
  \<^verbatim>\<open>TlsAlloc\<close> returns an index chosen by the operating system, or
  \<^verbatim>\<open>TLS_OUT_OF_INDEXES\<close>; the returned value \<open>r\<close> is an input of the model. A
  newly allocated index holds \<^verbatim>\<open>NULL\<close> in every thread.
\<close>

definition TlsAlloc :: "DWORD \<Rightarrow> tss_world \<Rightarrow> DWORD \<times> tss_world" where
  "TlsAlloc r w =
     (if r = TLS_OUT_OF_INDEXES then (r, w)
      else (r, w\<lparr>tls_slots := insert r (tls_slots w),
                 tls_value := (\<lambda>t. (tls_value w t)(r := 0))\<rparr>))"

definition TlsFree :: "DWORD \<Rightarrow> tss_world \<Rightarrow> tss_world" where
  "TlsFree k w = w\<lparr>tls_slots := tls_slots w - {k}\<rparr>"

definition TlsGetValue :: "thread_id \<Rightarrow> DWORD \<Rightarrow> tss_world \<Rightarrow> pvoid" where
  "TlsGetValue self k w = tls_value w self k"

definition TlsSetValue :: "thread_id \<Rightarrow> DWORD \<Rightarrow> pvoid \<Rightarrow> tss_world \<Rightarrow> bool \<times> tss_world" where
  "TlsSetValue self k v w =
     (if k \<in> tls_slots w
      then (True, w\<lparr>tls_value := (tls_value w)(self := (tls_value w self)(k := v))\<rparr>)
      else (False, w))"

subsection \<open>The destructor table\<close>

text \<open>
  The \<^verbatim>\<open>for\<close> loop of \<^verbatim>\<open>impl_tss_dtor_register\<close>, from index \<open>i\<close>: it stops at the
  first entry whose \<^verbatim>\<open>dtor\<close> is \<^verbatim>\<open>NULL\<close>, or at 64.
\<close>

function impl_tss_dtor_register_scan :: "nat \<Rightarrow> (nat \<Rightarrow> impl_tss_dtor_entry) \<Rightarrow> nat" where
  "impl_tss_dtor_register_scan i tbl =
     (if i < EMULATED_THREADS_TSS_DTOR_SLOTNUM
      then (if dtor (tbl i) = 0 then i else impl_tss_dtor_register_scan (Suc i) tbl)
      else i)"
  by pat_completeness auto
termination
  by (relation "measure (\<lambda>(i, tbl). EMULATED_THREADS_TSS_DTOR_SLOTNUM - i)") auto

declare impl_tss_dtor_register_scan.simps [simp del]

definition impl_tss_dtor_register ::
  "tss_t \<Rightarrow> tss_dtor_t \<Rightarrow> tss_world \<Rightarrow> c_int \<times> tss_world" where
  "impl_tss_dtor_register k d w =
     (let i = impl_tss_dtor_register_scan 0 (impl_tss_dtor_tbl w)
      in if i = EMULATED_THREADS_TSS_DTOR_SLOTNUM then (1, w)
         else (0, w\<lparr>impl_tss_dtor_tbl :=
                      (impl_tss_dtor_tbl w)(i := \<lparr>key = k, dtor = d\<rparr>)\<rparr>))"

definition tss_get :: "thread_id \<Rightarrow> tss_t \<Rightarrow> tss_world \<Rightarrow> pvoid" where
  "tss_get self k w = TlsGetValue self k w"

definition tss_set :: "thread_id \<Rightarrow> tss_t \<Rightarrow> pvoid \<Rightarrow> tss_world \<Rightarrow> c_int \<times> tss_world" where
  "tss_set self k v w =
     (case TlsSetValue self k v w of
        (ok, w') \<Rightarrow> (if ok then thrd_success else thrd_error, w'))"

text \<open>
  A destructor is user code, and it may itself use the storage functions. Its body is an
  input of the model: \<open>run d v w\<close> is the process-wide state that the call of the
  destructor \<open>d\<close> with the argument \<open>v\<close> leaves when it starts in the state \<open>w\<close>.
  Every call the sweep makes is recorded, in order, as the slot whose value is passed,
  the destructor and the value.
\<close>

type_synonym dtor_body = "tss_dtor_t \<Rightarrow> pvoid \<Rightarrow> tss_world \<Rightarrow> tss_world"
type_synonym dtor_call = "tss_t \<times> tss_dtor_t \<times> pvoid"

text \<open>
  The sweep of \<^verbatim>\<open>impl_tss_dtor_invoke\<close>, from index \<open>i\<close>, run by thread \<open>self\<close>.
  Each round reads the table and \<^verbatim>\<open>tss_get\<close> in the state that the earlier calls
  have left.
\<close>

function impl_tss_dtor_invoke_from ::
  "dtor_body \<Rightarrow> nat \<Rightarrow> thread_id \<Rightarrow> tss_world \<Rightarrow> dtor_call list \<Rightarrow> tss_world \<times> dtor_call list" where
  "impl_tss_dtor_invoke_from run i self w calls =
     (if i < EMULATED_THREADS_TSS_DTOR_SLOTNUM
      then (if dtor (impl_tss_dtor_tbl w i) \<noteq> 0
            then (let val = tss_get self (key (impl_tss_dtor_tbl w i)) w
                  in if val \<noteq> 0
                     then impl_tss_dtor_invoke_from run (Suc i) self
                            (run (dtor (impl_tss_dtor_tbl w i)) val w)
                            (calls @ [(key (impl_tss_dtor_tbl w i),
                                       dtor (impl_tss_dtor_tbl w i), val)])
                     else impl_tss_dtor_invoke_from run (Suc i) self w calls)
            else impl_tss_dtor_invoke_from run (Suc i) self w calls)
      else (w, calls))"
  by pat_completeness auto
termination
  by (relation "measure (\<lambda>(run, i, self, w, calls). EMULATED_THREADS_TSS_DTOR_SLOTNUM - i)")
    auto

declare impl_tss_dtor_invoke_from.simps [simp del]

definition impl_tss_dtor_invoke ::
  "dtor_body \<Rightarrow> thread_id \<Rightarrow> tss_world \<Rightarrow> tss_world \<times> dtor_call list" where
  "impl_tss_dtor_invoke run self w = impl_tss_dtor_invoke_from run 0 self w []"

text \<open>
  What the sweep owes to the entry at index \<open>i\<close> in the state \<open>w\<close>, in the words of
  the specification: one call of its destructor with the current value of the exiting
  thread when the entry is registered and that value is not null, and nothing otherwise.
\<close>

definition spec_dtor_calls :: "thread_id \<Rightarrow> tss_world \<Rightarrow> nat \<Rightarrow> dtor_call list" where
  "spec_dtor_calls self w i =
     (let e = impl_tss_dtor_tbl w i; v = tls_value w self (key e)
      in if dtor e \<noteq> 0 \<and> v \<noteq> 0 then [(key e, dtor e, v)] else [])"

text \<open>
  The visit of the entry at index \<open>i\<close>, in the words of the specification: the calls
  owed to the entry in the current state are made and recorded.
\<close>

definition spec_dtor_visit ::
  "dtor_body \<Rightarrow> thread_id \<Rightarrow> nat \<Rightarrow> tss_world \<times> dtor_call list \<Rightarrow> tss_world \<times> dtor_call list" where
  "spec_dtor_visit run self i st =
     (case st of
        (w, calls) \<Rightarrow>
          (fold (\<lambda>(k, d, v). run d v) (spec_dtor_calls self w i) w,
           calls @ spec_dtor_calls self w i))"

text \<open>
  Two destructor bodies: one that touches no storage, and one that stores the value
  \<open>v'\<close> in slot \<open>k\<close> of thread \<open>self\<close> with \<^verbatim>\<open>tss_set\<close>.
\<close>

definition dtor_no_effect :: dtor_body where
  "dtor_no_effect d v w = w"

definition dtor_sets_slot :: "thread_id \<Rightarrow> tss_t \<Rightarrow> pvoid \<Rightarrow> dtor_body" where
  "dtor_sets_slot self k v' d v w = snd (tss_set self k v' w)"

subsection \<open>\<^verbatim>\<open>tss_create\<close> and \<^verbatim>\<open>tss_delete\<close>\<close>

text \<open>
  \<open>r\<close> is what \<^verbatim>\<open>TlsAlloc\<close> returns in this call and \<open>kp\<close> the pointer \<^verbatim>\<open>key\<close>.
  The result is the return value, the value left in \<^verbatim>\<open>*key\<close> and the new state.
\<close>

definition tss_create ::
  "DWORD \<Rightarrow> tss_t option \<Rightarrow> tss_dtor_t \<Rightarrow> tss_world \<Rightarrow> failure + (c_int \<times> tss_t \<times> tss_world)" where
  "tss_create r kp d w =
     (case kp of
        None \<Rightarrow> Inl Assertion_failed
      | Some _ \<Rightarrow>
          (case TlsAlloc r w of
             (k, w1) \<Rightarrow>
               (if d \<noteq> 0
                then (case impl_tss_dtor_register k d w1 of
                        (rc, w2) \<Rightarrow>
                          if rc \<noteq> 0 then Inr (thrd_error, k, TlsFree k w2)
                          else Inr (if k \<noteq> 0xFFFFFFFF then thrd_success else thrd_error, k, w2))
                else Inr (if k \<noteq> 0xFFFFFFFF then thrd_success else thrd_error, k, w1))))"

definition tss_delete :: "tss_t \<Rightarrow> tss_world \<Rightarrow> tss_world" where
  "tss_delete k w = TlsFree k w"

section \<open>Mutexes\<close>

text \<open>
  \<^verbatim>\<open>mtx_t\<close> mirrors \<^verbatim>\<open>CRITICAL_SECTION\<close>; of its fields the owner (\<open>0\<close> when the
  section is free) and the recursion count decide what the native calls return.
\<close>

record mtx_t =
  OwningThread :: thread_id
  RecursionCount :: int

definition InitializeCriticalSection :: mtx_t where
  "InitializeCriticalSection = \<lparr>OwningThread = 0, RecursionCount = 0\<rparr>"

text \<open>
  \<^verbatim>\<open>TryEnterCriticalSection\<close> called by thread \<open>self\<close>: it succeeds when the section
  is free or already owned by the caller, and fails at once otherwise.
\<close>

definition TryEnterCriticalSection :: "thread_id \<Rightarrow> mtx_t \<Rightarrow> bool \<times> mtx_t" where
  "TryEnterCriticalSection self cs =
     (if OwningThread cs = 0 then (True, cs\<lparr>OwningThread := self, RecursionCount := 1\<rparr>)
      else if OwningThread cs = self then (True, cs\<lparr>RecursionCount := RecursionCount cs + 1\<rparr>)
      else (False, cs))"

text \<open>
  The storage \<^verbatim>\<open>mtx_init\<close> is given holds a constructed critical section or nothing.
  The result is the return value and the storage afterwards.
\<close>

definition mtx_init :: "mtx_t option option \<Rightarrow> c_int \<Rightarrow> failure + (c_int \<times> mtx_t option)" where
  "mtx_init mtx type =
     (case mtx of
        None \<Rightarrow> Inl Assertion_failed
      | Some storage \<Rightarrow>
          if type \<noteq> mtx_plain
             \<and> type \<noteq> mtx_timed
             \<and> type \<noteq> mtx_try
             \<and> type \<noteq> (mtx_plain OR mtx_recursive)
             \<and> type \<noteq> (mtx_timed OR mtx_recursive)
             \<and> type \<noteq> (mtx_try OR mtx_recursive)
          then Inr (thrd_error, storage)
          else Inr (thrd_success, Some InitializeCriticalSection))"

definition mtx_trylock :: "thread_id \<Rightarrow> mtx_t option \<Rightarrow> failure + (c_int \<times> mtx_t)" where
  "mtx_trylock self mtx =
     (case mtx of
        None \<Rightarrow> Inl Assertion_failed
      | Some cs \<Rightarrow>
          (case TryEnterCriticalSection self cs of
             (ok, cs') \<Rightarrow> Inr (if ok then thrd_success else thrd_busy, cs')))"

text \<open>
  What \<^verbatim>\<open>mtx_timedlock\<close> meets while it polls: \<open>clock e i\<close> is the time that the
  \<open>i\<close>-th call of \<^verbatim>\<open>timespec_get\<close> reads, and \<open>others e i\<close> is what the other
  threads do to the mutex while the caller is in its \<open>i\<close>-th \<^verbatim>\<open>thrd_yield\<close>.
\<close>

record poll_env =
  clock :: "nat \<Rightarrow> timespec"
  others :: "nat \<Rightarrow> mtx_t \<Rightarrow> mtx_t"

text \<open>
  The \<^verbatim>\<open>while\<close> loop of \<^verbatim>\<open>mtx_timedlock\<close>, entering its iteration \<open>i\<close> (so after
  \<open>i\<close> yields). The loop has no bound of its own: \<open>None\<close> says that it is still
  polling after \<open>fuel\<close> iterations. A result carries the return value, the mutex and the
  number of yields made.
\<close>

fun mtx_timedlock_loop ::
  "nat \<Rightarrow> poll_env \<Rightarrow> thread_id \<Rightarrow> timespec \<Rightarrow> nat \<Rightarrow> mtx_t \<Rightarrow> (failure + (c_int \<times> mtx_t \<times> nat)) option" where
  "mtx_timedlock_loop 0 e self ts i cs = None"
| "mtx_timedlock_loop (Suc fuel) e self ts i cs =
     (case mtx_trylock self (Some cs) of
        Inl f \<Rightarrow> Some (Inl f)
      | Inr (rc, cs') \<Rightarrow>
          if rc \<noteq> thrd_success
          then (if impl_abs2relmsec ts (clock e i) = 0
                then Some (Inr (thrd_timedout, cs', i))
                else mtx_timedlock_loop fuel e self ts (Suc i) (others e i cs'))
          else Some (Inr (thrd_success, cs', i)))"

definition mtx_timedlock ::
  "nat \<Rightarrow> poll_env \<Rightarrow> thread_id \<Rightarrow> mtx_t option \<Rightarrow> timespec option \<Rightarrow> (failure + (c_int \<times> mtx_t \<times> nat)) option" where
  "mtx_timedlock fuel e self mtx ts =
     (case mtx of
        None \<Rightarrow> Some (Inl Assertion_failed)
      | Some cs \<Rightarrow>
          (case ts of
             None \<Rightarrow> Some (Inl Assertion_failed)
           | Some t \<Rightarrow> mtx_timedlock_loop fuel e self t 0 cs))"


definition held_by_other :: "thread_id \<Rightarrow> mtx_t \<Rightarrow> bool" where
  "held_by_other self cs \<longleftrightarrow> OwningThread cs \<noteq> 0 \<and> OwningThread cs \<noteq> self"

section \<open>Threads\<close>

text \<open>
  \<^verbatim>\<open>CloseHandle\<close> on the set of handles the process has open.
\<close>

definition CloseHandle :: "thrd_t \<Rightarrow> thrd_t set \<Rightarrow> thrd_t set" where
  "CloseHandle h handles = handles - {h}"

text \<open>
  \<^verbatim>\<open>thrd_join\<close>. The native results are inputs: \<open>wait\<close> is what
  \<^verbatim>\<open>WaitForSingleObject(thr, INFINITE)\<close> returns, \<open>None\<close> when the thread never
  terminates and the wait never ends; \<open>exit_code\<close> is the code that
  \<^verbatim>\<open>GetExitCodeThread\<close> stores, \<open>None\<close> when that call fails. \<open>res\<close> is the
  pointer \<^verbatim>\<open>res\<close> with the \<^verbatim>\<open>int\<close> it points to. The result, when the call
  returns, is the return value, the \<^verbatim>\<open>int\<close> behind \<^verbatim>\<open>res\<close> and the open handles.
\<close>

definition thrd_join ::
  "DWORD option \<Rightarrow> DWORD option \<Rightarrow> thrd_t \<Rightarrow> c_int option \<Rightarrow> thrd_t set \<Rightarrow>
     (c_int \<times> c_int option \<times> thrd_t set) option" where
  "thrd_join wait exit_code thr res handles =
     (case wait of
        None \<Rightarrow> None
      | Some w \<Rightarrow>
          if w \<noteq> WAIT_OBJECT_0 then Some (thrd_error, res, handles)
          else (case res of
                  Some old \<Rightarrow>
                    (case exit_code of
                       None \<Rightarrow> Some (thrd_error, res, CloseHandle thr handles)
                     | Some code \<Rightarrow> Some (thrd_success, Some code, CloseHandle thr handles))
                | None \<Rightarrow> Some (thrd_success, res, CloseHandle thr handles)))"

text \<open>
  \<^verbatim>\<open>thrd_sleep\<close>: both assertions come before the call of \<^verbatim>\<open>Sleep\<close>. A result
  carries the return value and the number of milliseconds handed to \<^verbatim>\<open>Sleep\<close>.
\<close>

definition thrd_sleep :: "timespec option \<Rightarrow> timespec option \<Rightarrow> failure + (c_int \<times> DWORD)" where
  "thrd_sleep time_point remaining =
     (case time_point of
        None \<Rightarrow> Inl Assertion_failed
      | Some tp \<Rightarrow>
          (case remaining of
             Some _ \<Rightarrow> Inl Assertion_failed
           | None \<Rightarrow> Inr (0, ucast (impl_timespec2msec tp))))"

section \<open>One-time initialisation, emulated\<close>

text \<open>
  The \<^verbatim>\<open>#else\<close> branch of \<^verbatim>\<open>call_once\<close>, as an interleaving of the callers that
  share one flag; every caller passes a flag and a function that are not null, so
  \<^verbatim>\<open>assert(flag && func)\<close> holds. A caller is at one of these points of the function:
  \<^item> \<open>At_exchange\<close>: before \<^verbatim>\<open>InterlockedCompareExchangePointer\<close>;
  \<^item> \<open>Before_func\<close>: the exchange returned 0, \<^verbatim>\<open>func\<close> is not yet called;
  \<^item> \<open>In_func\<close>: inside \<^verbatim>\<open>func\<close>;
  \<^item> \<open>After_func\<close>: \<^verbatim>\<open>func\<close> has returned, before \<^verbatim>\<open>InterlockedExchangePointer\<close>;
  \<^item> \<open>Spinning\<close>: in the \<^verbatim>\<open>while\<close> loop of the \<^verbatim>\<open>else\<close> branch;
  \<^item> \<open>Returned\<close>: \<^verbatim>\<open>call_once\<close> has returned.
\<close>

datatype once_pc = At_exchange | Before_func | In_func | After_func | Spinning | Returned

text \<open>
  The shared state: the word \<^verbatim>\<open>flag->status\<close>, the point every thread is at, and two
  counters that observe \<^verbatim>\<open>func\<close>: how often it was entered and how often it returned.
\<close>

record once_state =
  status :: nat
  pc :: "thread_id \<Rightarrow> once_pc"
  entered :: nat
  finished :: nat

text \<open>\<^verbatim>\<open>ONCE_FLAG_INIT\<close> is \<^verbatim>\<open>{0}\<close>; every thread is a caller that has not yet moved.\<close>

definition once_init :: once_state where
  "once_init = \<lparr>status = 0, pc = (\<lambda>_. At_exchange), entered = 0, finished = 0\<rparr>"

text \<open>
  One atomic step of thread \<open>t\<close>. The two interlocked calls are atomic by their
  contract; one round of the \<^verbatim>\<open>while\<close> loop reads the \<^verbatim>\<open>volatile\<close> status once.
\<close>

definition call_once_step :: "thread_id \<Rightarrow> once_state \<Rightarrow> once_state" where
  "call_once_step t s =
     (case pc s t of
        At_exchange \<Rightarrow>
          if status s = 0 then s\<lparr>status := 1, pc := (pc s)(t := Before_func)\<rparr>
          else s\<lparr>pc := (pc s)(t := Spinning)\<rparr>
      | Before_func \<Rightarrow> s\<lparr>pc := (pc s)(t := In_func), entered := entered s + 1\<rparr>
      | In_func \<Rightarrow> s\<lparr>pc := (pc s)(t := After_func), finished := finished s + 1\<rparr>
      | After_func \<Rightarrow> s\<lparr>status := 2, pc := (pc s)(t := Returned)\<rparr>
      | Spinning \<Rightarrow> if status s = 1 then s else s\<lparr>pc := (pc s)(t := Returned)\<rparr>
      | Returned \<Rightarrow> s)"

text \<open>A schedule names the thread that makes each step, in order.\<close>

fun call_once_run :: "thread_id list \<Rightarrow> once_state \<Rightarrow> once_state" where
  "call_once_run [] s = s"
| "call_once_run (t # sched) s = call_once_run sched (call_once_step t s)"

text \<open>
  What the shared state must look like for a thread at a given point: between its
  exchange and its store a thread sees the status 1 and the counters tell how far it is;
  a thread spins only after the status has left 0; a thread has returned only when the
  status is 2.
\<close>

fun once_pc_ok :: "once_state \<Rightarrow> once_pc \<Rightarrow> bool" where
  "once_pc_ok s At_exchange = True"
| "once_pc_ok s Before_func = (status s = 1 \<and> entered s = 0 \<and> finished s = 0)"
| "once_pc_ok s In_func = (status s = 1 \<and> entered s = 1 \<and> finished s = 0)"
| "once_pc_ok s After_func = (status s = 1 \<and> entered s = 1 \<and> finished s = 1)"
| "once_pc_ok s Spinning = (status s \<noteq> 0)"
| "once_pc_ok s Returned = (status s = 2)"

fun once_winner :: "once_pc \<Rightarrow> bool" where
  "once_winner Before_func = True"
| "once_winner In_func = True"
| "once_winner After_func = True"
| "once_winner _ = False"

text \<open>
  The invariant of the interleaving: the status is 0, 1 or 2, the function has been
  entered at most once and left no more often than entered, every thread is at a point
  that fits the state, at most one thread is between its exchange and its store, the
  function has not been entered while the status is 0, and it has been entered and left
  once when the status is 2.
\<close>

definition once_inv :: "once_state \<Rightarrow> bool" where
  "once_inv s \<longleftrightarrow>
     status s \<le> 2 \<and> entered s \<le> 1 \<and> finished s \<le> entered s \<and>
     (\<forall>t. once_pc_ok s (pc s t)) \<and>
     (\<forall>t u. once_winner (pc s t) \<and> once_winner (pc s u) \<longrightarrow> t = u) \<and>
     (status s = 0 \<longrightarrow> entered s = 0 \<and> finished s = 0) \<and>
     (status s = 2 \<longrightarrow> entered s = 1 \<and> finished s = 1)"

section \<open>Facts about the time conversion\<close>

lemma impl_timespec2msec_of_int: "impl_timespec2msec ts = word_of_int (spec_msec ts)"
  by (simp add: impl_timespec2msec_def spec_msec_def)




lemma sint_impl_timespec2msec_fits:
  assumes "msec_fits_time_t ts"
  shows "sint (impl_timespec2msec ts) = spec_msec ts"
proof -
  from assms have "signed_take_bit 63 (spec_msec ts) = spec_msec ts"
    by (intro signed_take_bit_int_eq_self) (simp_all add: msec_fits_time_t_def)
  then show ?thesis
    by (simp add: impl_timespec2msec_of_int signed_of_int)
qed

lemma impl_abs2relmsec_future_fits:
  assumes "msec_fits_time_t a" "msec_fits_time_t n" "spec_msec n < spec_msec a"
  shows "uint (impl_abs2relmsec a n) = (spec_msec a - spec_msec n) mod 2 ^ 32"
proof -
  have lt: "impl_timespec2msec n <s impl_timespec2msec a"
    using assms by (simp add: word_sless_alt sint_impl_timespec2msec_fits)
  have d: "impl_timespec2msec a - impl_timespec2msec n = word_of_int (spec_msec a - spec_msec n)"
    by (simp add: impl_timespec2msec_of_int)
  have "uint (impl_timespec2msec a - impl_timespec2msec n) =
      (spec_msec a - spec_msec n) mod 2 ^ 64"
    unfolding d uint_word_of_int by simp
  moreover have "(spec_msec a - spec_msec n) mod 2 ^ 64 mod 2 ^ 32 =
      (spec_msec a - spec_msec n) mod 2 ^ 32"
    by (rule mod_mod_cancel) simp
  ultimately show ?thesis
    using lt by (simp add: impl_abs2relmsec_def Let_def unsigned_ucast_eq take_bit_eq_mod)
qed

lemma impl_abs2relmsec_past_fits:
  assumes "msec_fits_time_t a" "msec_fits_time_t n" "spec_msec a \<le> spec_msec n"
  shows "impl_abs2relmsec a n = 0"
  using assms
  by (simp add: impl_abs2relmsec_def Let_def word_sless_alt sint_impl_timespec2msec_fits)

lemma impl_abs2relmsec_future_time_t:
  assumes "sint (impl_timespec2msec n) < sint (impl_timespec2msec a)"
    and "sint (impl_timespec2msec a) - sint (impl_timespec2msec n) < 2 ^ 32"
  shows "uint (impl_abs2relmsec a n) = sint (impl_timespec2msec a) - sint (impl_timespec2msec n)"
proof -
  let ?d = "sint (impl_timespec2msec a) - sint (impl_timespec2msec n)"
  have lt: "impl_timespec2msec n <s impl_timespec2msec a"
    using assms(1) by (simp add: word_sless_alt)
  have d: "impl_timespec2msec a - impl_timespec2msec n = word_of_int ?d"
    by simp
  have r: "0 \<le> ?d" "?d < 2 ^ 64" "?d < 2 ^ 32"
    using assms by simp_all
  have "uint (impl_timespec2msec a - impl_timespec2msec n) = ?d"
    using r(1,2) by (subst d, simp only: uint_word_of_int) simp
  then show ?thesis
    using lt r(1,3) by (simp add: impl_abs2relmsec_def Let_def unsigned_ucast_eq take_bit_eq_mod)
qed

lemma impl_abs2relmsec_past_time_t:
  assumes "sint (impl_timespec2msec a) \<le> sint (impl_timespec2msec n)"
  shows "impl_abs2relmsec a n = 0"
  using assms by (simp add: impl_abs2relmsec_def Let_def word_sless_alt)

section \<open>Facts about the poll loop of \<^verbatim>\<open>mtx_timedlock\<close>\<close>


lemma mtx_trylock_not_held_by_other:
  "\<not> held_by_other self cs \<Longrightarrow>
     mtx_trylock self (Some cs) = Inr (thrd_success, snd (TryEnterCriticalSection self cs))"
  by (auto simp add: mtx_trylock_def TryEnterCriticalSection_def held_by_other_def)

lemma TryEnterCriticalSection_owner:
  "\<not> held_by_other self cs \<Longrightarrow> OwningThread (snd (TryEnterCriticalSection self cs)) = self"
  by (auto simp add: TryEnterCriticalSection_def held_by_other_def)



lemma mtx_timedlock_loop_acquire:
  "\<not> held_by_other self cs \<Longrightarrow>
     mtx_timedlock_loop (Suc n) e self ts i cs =
       Some (Inr (thrd_success, snd (TryEnterCriticalSection self cs), i))"
  by (simp add: mtx_trylock_not_held_by_other)



section \<open>Facts about the interleavings of \<^verbatim>\<open>call_once\<close>\<close>

lemma step_exchange_won:
  "pc s t = At_exchange \<Longrightarrow> status s = 0 \<Longrightarrow>
     call_once_step t s = s\<lparr>status := 1, pc := (pc s)(t := Before_func)\<rparr>"
  by (simp add: call_once_step_def)

lemma step_exchange_lost:
  "pc s t = At_exchange \<Longrightarrow> status s \<noteq> 0 \<Longrightarrow>
     call_once_step t s = s\<lparr>pc := (pc s)(t := Spinning)\<rparr>"
  by (simp add: call_once_step_def)

lemma step_before_func:
  "pc s t = Before_func \<Longrightarrow>
     call_once_step t s = s\<lparr>pc := (pc s)(t := In_func), entered := entered s + 1\<rparr>"
  by (simp add: call_once_step_def)

lemma step_in_func:
  "pc s t = In_func \<Longrightarrow>
     call_once_step t s = s\<lparr>pc := (pc s)(t := After_func), finished := finished s + 1\<rparr>"
  by (simp add: call_once_step_def)

lemma step_after_func:
  "pc s t = After_func \<Longrightarrow>
     call_once_step t s = s\<lparr>status := 2, pc := (pc s)(t := Returned)\<rparr>"
  by (simp add: call_once_step_def)

lemma step_spinning_on:
  "pc s t = Spinning \<Longrightarrow> status s = 1 \<Longrightarrow> call_once_step t s = s"
  by (simp add: call_once_step_def)

lemma step_spinning_out:
  "pc s t = Spinning \<Longrightarrow> status s \<noteq> 1 \<Longrightarrow>
     call_once_step t s = s\<lparr>pc := (pc s)(t := Returned)\<rparr>"
  by (simp add: call_once_step_def)

lemma step_returned:
  "pc s t = Returned \<Longrightarrow> call_once_step t s = s"
  by (simp add: call_once_step_def)

lemma once_pc_ok_iff:
  "once_pc_ok s p \<longleftrightarrow>
     (p = Before_func \<longrightarrow> status s = 1 \<and> entered s = 0 \<and> finished s = 0) \<and>
     (p = In_func \<longrightarrow> status s = 1 \<and> entered s = 1 \<and> finished s = 0) \<and>
     (p = After_func \<longrightarrow> status s = 1 \<and> entered s = 1 \<and> finished s = 1) \<and>
     (p = Spinning \<longrightarrow> status s \<noteq> 0) \<and>
     (p = Returned \<longrightarrow> status s = 2)"
  by (cases p) simp_all

lemma once_winner_iff:
  "once_winner p \<longleftrightarrow> p = Before_func \<or> p = In_func \<or> p = After_func"
  by (cases p) simp_all

lemma once_inv_exchange_won:
  assumes "once_inv s" "pc s t = At_exchange" "status s = 0"
  shows "once_inv (s\<lparr>status := 1, pc := (pc s)(t := Before_func)\<rparr>)"
  using assms unfolding once_inv_def once_pc_ok_iff once_winner_iff
  by (simp; metis)

lemma once_inv_exchange_lost:
  assumes "once_inv s" "pc s t = At_exchange" "status s \<noteq> 0"
  shows "once_inv (s\<lparr>pc := (pc s)(t := Spinning)\<rparr>)"
  using assms unfolding once_inv_def once_pc_ok_iff once_winner_iff
  by (simp; metis)

lemma once_winner_alone:
  assumes "once_inv s" "once_winner (pc s t)"
  shows "status s = 1 \<and> (\<forall>u. u \<noteq> t \<longrightarrow> pc s u = At_exchange \<or> pc s u = Spinning)"
proof (intro conjI allI impI)
  from assms show st: "status s = 1"
    unfolding once_inv_def once_pc_ok_iff once_winner_iff by metis
  fix u assume "u \<noteq> t"
  with assms have "\<not> once_winner (pc s u)"
    unfolding once_inv_def by metis
  moreover from assms(1) have "once_pc_ok s (pc s u)"
    unfolding once_inv_def by simp
  ultimately show "pc s u = At_exchange \<or> pc s u = Spinning"
    using st by (cases "pc s u") simp_all
qed

lemma once_inv_before_func:
  assumes "once_inv s" "pc s t = Before_func"
  shows "once_inv (s\<lparr>pc := (pc s)(t := In_func), entered := entered s + 1\<rparr>)"
proof -
  from assms(2) have w: "once_winner (pc s t)" by simp
  from assms have c: "entered s = 0" "finished s = 0"
    unfolding once_inv_def once_pc_ok_iff by metis+
  show ?thesis
    unfolding once_inv_def once_pc_ok_iff once_winner_iff
    using once_winner_alone [OF assms(1) w] c by auto
qed

lemma once_inv_in_func:
  assumes "once_inv s" "pc s t = In_func"
  shows "once_inv (s\<lparr>pc := (pc s)(t := After_func), finished := finished s + 1\<rparr>)"
proof -
  from assms(2) have w: "once_winner (pc s t)" by simp
  from assms have c: "entered s = 1" "finished s = 0"
    unfolding once_inv_def once_pc_ok_iff by metis+
  show ?thesis
    unfolding once_inv_def once_pc_ok_iff once_winner_iff
    using once_winner_alone [OF assms(1) w] c by auto
qed

lemma once_inv_after_func:
  assumes "once_inv s" "pc s t = After_func"
  shows "once_inv (s\<lparr>status := 2, pc := (pc s)(t := Returned)\<rparr>)"
proof -
  from assms(2) have w: "once_winner (pc s t)" by simp
  from assms have c: "entered s = 1" "finished s = 1"
    unfolding once_inv_def once_pc_ok_iff by metis+
  show ?thesis
    unfolding once_inv_def once_pc_ok_iff once_winner_iff
    using once_winner_alone [OF assms(1) w] c by auto
qed

lemma once_inv_spinning_out:
  assumes "once_inv s" "pc s t = Spinning" "status s \<noteq> 1"
  shows "once_inv (s\<lparr>pc := (pc s)(t := Returned)\<rparr>)"
proof -
  from assms(1) have ok: "once_pc_ok s (pc s u)" for u
    unfolding once_inv_def by simp
  have idle: "\<forall>u. pc s u \<noteq> Before_func \<and> pc s u \<noteq> In_func \<and> pc s u \<noteq> After_func"
  proof
    fix u show "pc s u \<noteq> Before_func \<and> pc s u \<noteq> In_func \<and> pc s u \<noteq> After_func"
      using ok [of u] assms(3) by (cases "pc s u") simp_all
  qed
  have st: "status s = 2"
  proof -
    from ok [of t] assms(2) have "status s \<noteq> 0" by simp
    moreover from assms(1) have "status s \<le> 2"
      unfolding once_inv_def by simp
    ultimately show ?thesis using assms(3) by arith
  qed
  from assms(1) st have c: "entered s = 1" "finished s = 1"
    unfolding once_inv_def by simp_all
  show ?thesis
    unfolding once_inv_def once_pc_ok_iff once_winner_iff
    using idle st c by simp
qed

lemma once_inv_init: "once_inv once_init"
  by (simp add: once_inv_def once_init_def)

lemma once_inv_step:
  assumes "once_inv s"
  shows "once_inv (call_once_step t s)"
proof (cases "pc s t")
  case At_exchange
  show ?thesis
  proof (cases "status s = 0")
    case True
    show ?thesis
      unfolding step_exchange_won [OF At_exchange True]
      by (rule once_inv_exchange_won [OF assms At_exchange True])
  next
    case False
    show ?thesis
      unfolding step_exchange_lost [OF At_exchange False]
      by (rule once_inv_exchange_lost [OF assms At_exchange False])
  qed
next
  case Before_func
  show ?thesis
    unfolding step_before_func [OF Before_func]
    by (rule once_inv_before_func [OF assms Before_func])
next
  case In_func
  show ?thesis
    unfolding step_in_func [OF In_func]
    by (rule once_inv_in_func [OF assms In_func])
next
  case After_func
  show ?thesis
    unfolding step_after_func [OF After_func]
    by (rule once_inv_after_func [OF assms After_func])
next
  case Spinning
  show ?thesis
  proof (cases "status s = 1")
    case True
    show ?thesis
      unfolding step_spinning_on [OF Spinning True] by (rule assms)
  next
    case False
    show ?thesis
      unfolding step_spinning_out [OF Spinning False]
      by (rule once_inv_spinning_out [OF assms Spinning False])
  qed
next
  case Returned
  show ?thesis
    unfolding step_returned [OF Returned] by (rule assms)
qed

lemma once_inv_run: "once_inv s \<Longrightarrow> once_inv (call_once_run sched s)"
  by (induction sched arbitrary: s) (simp_all add: once_inv_step)

section \<open>Facts about the destructor table\<close>

lemma scan_first_free:
  assumes "i \<le> k" "k < EMULATED_THREADS_TSS_DTOR_SLOTNUM" "dtor (tbl k) = 0"
    and "\<forall>j. i \<le> j \<and> j < k \<longrightarrow> dtor (tbl j) \<noteq> 0"
  shows "impl_tss_dtor_register_scan i tbl = k"
  using assms
proof (induction i tbl rule: impl_tss_dtor_register_scan.induct)
  case (1 i tbl)
  show ?case
  proof (cases "i = k")
    case True
    with "1.prems" show ?thesis
      by (subst impl_tss_dtor_register_scan.simps) simp
  next
    case False
    with "1.prems" have lt: "i < k" and here: "dtor (tbl i) \<noteq> 0" by auto
    with "1.prems" have "impl_tss_dtor_register_scan (Suc i) tbl = k"
      by (intro "1.IH") auto
    with lt here "1.prems" show ?thesis
      by (subst impl_tss_dtor_register_scan.simps) simp
  qed
qed

lemma scan_full:
  assumes "i \<le> EMULATED_THREADS_TSS_DTOR_SLOTNUM"
    and "\<forall>j. i \<le> j \<and> j < EMULATED_THREADS_TSS_DTOR_SLOTNUM \<longrightarrow> dtor (tbl j) \<noteq> 0"
  shows "impl_tss_dtor_register_scan i tbl = EMULATED_THREADS_TSS_DTOR_SLOTNUM"
  using assms
proof (induction i tbl rule: impl_tss_dtor_register_scan.induct)
  case (1 i tbl)
  show ?case
  proof (cases "i < EMULATED_THREADS_TSS_DTOR_SLOTNUM")
    case True
    with "1.prems" have here: "dtor (tbl i) \<noteq> 0" by auto
    with True "1.prems" have "impl_tss_dtor_register_scan (Suc i) tbl = EMULATED_THREADS_TSS_DTOR_SLOTNUM"
      by (intro "1.IH") auto
    with True here show ?thesis
      by (subst impl_tss_dtor_register_scan.simps) simp
  next
    case False
    with "1.prems" show ?thesis
      by (subst impl_tss_dtor_register_scan.simps) simp
  qed
qed

lemma impl_tss_dtor_register_full:
  assumes "\<forall>j<64. dtor (impl_tss_dtor_tbl w j) \<noteq> 0"
  shows "impl_tss_dtor_register k d w = (1, w)"
  using scan_full [of 0 "impl_tss_dtor_tbl w"] assms
  by (simp add: impl_tss_dtor_register_def EMULATED_THREADS_TSS_DTOR_SLOTNUM_def)

lemma impl_tss_dtor_register_free:
  assumes "i < 64" "dtor (impl_tss_dtor_tbl w i) = 0"
    and "\<forall>j<i. dtor (impl_tss_dtor_tbl w j) \<noteq> 0"
  shows "impl_tss_dtor_register k d w =
           (0, w\<lparr>impl_tss_dtor_tbl := (impl_tss_dtor_tbl w)(i := \<lparr>key = k, dtor = d\<rparr>)\<rparr>)"
  using scan_first_free [of 0 i "impl_tss_dtor_tbl w"] assms
  by (simp add: impl_tss_dtor_register_def EMULATED_THREADS_TSS_DTOR_SLOTNUM_def)

lemma impl_tss_dtor_tbl_TlsAlloc [simp]:
  "impl_tss_dtor_tbl (snd (TlsAlloc r w)) = impl_tss_dtor_tbl w"
  by (simp add: TlsAlloc_def)

lemma TlsAlloc_result: "TlsAlloc r w = (r, snd (TlsAlloc r w))"
  by (simp add: TlsAlloc_def)

lemma tls_slots_TlsAlloc:
  "r \<noteq> 0xFFFFFFFF \<Longrightarrow> tls_slots (snd (TlsAlloc r w)) = insert r (tls_slots w)"
  by (simp add: TlsAlloc_def TLS_OUT_OF_INDEXES_def)

lemma tss_create_unfold:
  "d \<noteq> 0 \<Longrightarrow> tss_create r (Some k0) d w =
     (case impl_tss_dtor_register r d (snd (TlsAlloc r w)) of
        (rc, w2) \<Rightarrow>
          if rc \<noteq> 0 then Inr (thrd_error, r, TlsFree r w2)
          else Inr (if r \<noteq> 0xFFFFFFFF then thrd_success else thrd_error, r, w2))"
  by (subst tss_create_def, subst TlsAlloc_result) simp

lemma tss_set_allocated:
  "k \<in> tls_slots w \<Longrightarrow>
     tss_set self k v w =
       (thrd_success, w\<lparr>tls_value := (tls_value w)(self := (tls_value w self)(k := v))\<rparr>)"
  by (simp add: tss_set_def TlsSetValue_def)

lemma impl_tss_dtor_register_appends:
  assumes "n < 64" and "\<forall>j. dtor (impl_tss_dtor_tbl w j) \<noteq> 0 \<longleftrightarrow> j < n"
  shows "impl_tss_dtor_register k d w =
           (0, w\<lparr>impl_tss_dtor_tbl := (impl_tss_dtor_tbl w)(n := \<lparr>key = k, dtor = d\<rparr>)\<rparr>)"
proof (rule impl_tss_dtor_register_free)
  show "n < 64" by (rule assms(1))
  from assms(2) have "\<not> dtor (impl_tss_dtor_tbl w n) \<noteq> 0" by simp
  then show "dtor (impl_tss_dtor_tbl w n) = 0" by simp
  from assms(2) show "\<forall>j<n. dtor (impl_tss_dtor_tbl w j) \<noteq> 0" by simp
qed

lemma spec_dtor_visit_call:
  "dtor (impl_tss_dtor_tbl w i) \<noteq> 0 \<Longrightarrow> tss_get self (key (impl_tss_dtor_tbl w i)) w \<noteq> 0 \<Longrightarrow>
     spec_dtor_visit run self i (w, calls) =
       (run (dtor (impl_tss_dtor_tbl w i)) (tss_get self (key (impl_tss_dtor_tbl w i)) w) w,
        calls @ [(key (impl_tss_dtor_tbl w i), dtor (impl_tss_dtor_tbl w i),
                  tss_get self (key (impl_tss_dtor_tbl w i)) w)])"
  by (simp add: spec_dtor_visit_def spec_dtor_calls_def Let_def tss_get_def TlsGetValue_def)

lemma spec_dtor_visit_null:
  "tss_get self (key (impl_tss_dtor_tbl w i)) w = 0 \<Longrightarrow>
     spec_dtor_visit run self i (w, calls) = (w, calls)"
  by (simp add: spec_dtor_visit_def spec_dtor_calls_def Let_def tss_get_def TlsGetValue_def)

lemma spec_dtor_visit_free:
  "dtor (impl_tss_dtor_tbl w i) = 0 \<Longrightarrow> spec_dtor_visit run self i (w, calls) = (w, calls)"
  by (simp add: spec_dtor_visit_def spec_dtor_calls_def Let_def)

lemma impl_tss_dtor_invoke_from_fold:
  "i \<le> EMULATED_THREADS_TSS_DTOR_SLOTNUM \<Longrightarrow>
     impl_tss_dtor_invoke_from run i self w calls =
       fold (spec_dtor_visit run self) [i..<EMULATED_THREADS_TSS_DTOR_SLOTNUM] (w, calls)"
proof (induction run i self w calls rule: impl_tss_dtor_invoke_from.induct)
  case (1 run i self w calls)
  show ?case
  proof (cases "i < EMULATED_THREADS_TSS_DTOR_SLOTNUM")
    case True
    then have up: "[i..<EMULATED_THREADS_TSS_DTOR_SLOTNUM] =
        i # [Suc i..<EMULATED_THREADS_TSS_DTOR_SLOTNUM]"
      by (rule upt_conv_Cons)
    from True have le: "Suc i \<le> EMULATED_THREADS_TSS_DTOR_SLOTNUM" by simp
    show ?thesis
    proof (cases "dtor (impl_tss_dtor_tbl w i) \<noteq> 0")
      case registered: True
      show ?thesis
      proof (cases "tss_get self (key (impl_tss_dtor_tbl w i)) w \<noteq> 0")
        case set: True
        from "1.IH"(1) [OF True registered refl set le] True registered set show ?thesis
          by (subst impl_tss_dtor_invoke_from.simps)
            (simp add: up spec_dtor_visit_call Let_def)
      next
        case unset: False
        from "1.IH"(2) [OF True registered refl unset le] True registered unset show ?thesis
          by (subst impl_tss_dtor_invoke_from.simps)
            (simp add: up spec_dtor_visit_null Let_def)
      qed
    next
      case free: False
      from "1.IH"(3) [OF True free le] True free show ?thesis
        by (subst impl_tss_dtor_invoke_from.simps) (simp add: up spec_dtor_visit_free)
    qed
  next
    case False
    with "1.prems" show ?thesis
      by (subst impl_tss_dtor_invoke_from.simps) simp
  qed
qed

lemma impl_tss_dtor_invoke_fold:
  "impl_tss_dtor_invoke run self w =
     fold (spec_dtor_visit run self) [0..<EMULATED_THREADS_TSS_DTOR_SLOTNUM] (w, [])"
  by (simp add: impl_tss_dtor_invoke_def impl_tss_dtor_invoke_from_fold)

lemma spec_dtor_calls_cong:
  "impl_tss_dtor_tbl w' = impl_tss_dtor_tbl w \<Longrightarrow> tls_value w' self = tls_value w self \<Longrightarrow>
     spec_dtor_calls self w' i = spec_dtor_calls self w i"
  by (simp add: spec_dtor_calls_def)

lemma spec_dtor_visit_quiet:
  assumes quiet: "\<forall>d v u. impl_tss_dtor_tbl (run d v u) = impl_tss_dtor_tbl u \<and>
                         tls_value (run d v u) self = tls_value u self"
  shows "impl_tss_dtor_tbl (fst (spec_dtor_visit run self i (w, calls))) = impl_tss_dtor_tbl w \<and>
         tls_value (fst (spec_dtor_visit run self i (w, calls))) self = tls_value w self \<and>
         snd (spec_dtor_visit run self i (w, calls)) = calls @ spec_dtor_calls self w i"
  using quiet by (simp add: spec_dtor_visit_def spec_dtor_calls_def Let_def)

lemma fold_spec_dtor_visit_quiet:
  assumes quiet: "\<forall>d v u. impl_tss_dtor_tbl (run d v u) = impl_tss_dtor_tbl u \<and>
                         tls_value (run d v u) self = tls_value u self"
    and "impl_tss_dtor_tbl w' = impl_tss_dtor_tbl w" and "tls_value w' self = tls_value w self"
  shows "snd (fold (spec_dtor_visit run self) xs (w', calls)) =
           calls @ concat (map (spec_dtor_calls self w) xs)"
  using assms(2,3)
proof (induction xs arbitrary: w' calls)
  case Nil
  then show ?case by simp
next
  case (Cons i xs)
  obtain w'' calls'' where v: "spec_dtor_visit run self i (w', calls) = (w'', calls'')"
    by (cases "spec_dtor_visit run self i (w', calls)")
  from spec_dtor_visit_quiet [OF quiet, of i w' calls] v
  have t: "impl_tss_dtor_tbl w'' = impl_tss_dtor_tbl w'"
    and u: "tls_value w'' self = tls_value w' self"
    and c: "calls'' = calls @ spec_dtor_calls self w' i"
    by simp_all
  from Cons.prems have same: "spec_dtor_calls self w' i = spec_dtor_calls self w i"
    by (rule spec_dtor_calls_cong)
  from t u Cons.prems have "snd (fold (spec_dtor_visit run self) xs (w'', calls'')) =
      calls'' @ concat (map (spec_dtor_calls self w) xs)"
    by (intro Cons.IH) simp_all
  then show ?case
    by (simp add: v c same)
qed

lemma impl_tss_dtor_invoke_quiet:
  assumes "\<forall>d v u. impl_tss_dtor_tbl (run d v u) = impl_tss_dtor_tbl u \<and>
                  tls_value (run d v u) self = tls_value u self"
  shows "snd (impl_tss_dtor_invoke run self w) =
           concat (map (spec_dtor_calls self w) [0..<EMULATED_THREADS_TSS_DTOR_SLOTNUM])"
  using fold_spec_dtor_visit_quiet [OF assms, of w w "[0..<EMULATED_THREADS_TSS_DTOR_SLOTNUM]" "[]"]
  by (simp add: impl_tss_dtor_invoke_fold)

lemma concat_map_if_single:
  "concat (map (\<lambda>i. if Q i then [g i] else []) xs) = map g (filter Q xs)"
  by (induction xs) simp_all

lemma filter_slot_spec_dtor_calls:
  "filter (\<lambda>c. fst c = s) (spec_dtor_calls self w i) =
     (if dtor (impl_tss_dtor_tbl w i) \<noteq> 0 \<and> key (impl_tss_dtor_tbl w i) = s \<and>
         tls_value w self s \<noteq> 0
      then [(s, dtor (impl_tss_dtor_tbl w i), tls_value w self s)] else [])"
  by (auto simp add: spec_dtor_calls_def Let_def)

lemma filter_slot_sweep:
  "filter (\<lambda>c. fst c = s) (concat (map (spec_dtor_calls self w) xs)) =
     (if tls_value w self s = 0 then []
      else map (\<lambda>i. (s, dtor (impl_tss_dtor_tbl w i), tls_value w self s))
             (filter (\<lambda>i. dtor (impl_tss_dtor_tbl w i) \<noteq> 0 \<and> key (impl_tss_dtor_tbl w i) = s) xs))"
  by (induction xs) (simp_all add: filter_slot_spec_dtor_calls)

lemma filter_upt_single:
  "i < n \<Longrightarrow> \<forall>j<n. Q j \<longleftrightarrow> j = i \<Longrightarrow> filter Q [0..<n] = [i]"
proof (induction n)
  case 0
  then show ?case by simp
next
  case (Suc n)
  show ?case
  proof (cases "i = n")
    case True
    with Suc.prems have "\<forall>j\<in>set [0..<n]. \<not> Q j" by auto
    then have "filter Q [0..<n] = []" by (simp only: filter_False)
    with True Suc.prems show ?thesis by simp
  next
    case False
    with Suc.prems have "i < n" "\<forall>j<n. Q j \<longleftrightarrow> j = i" "\<not> Q n" by auto
    with Suc.IH show ?thesis by simp
  qed
qed

lemma tss_set_value:
  "k \<in> tls_slots w \<Longrightarrow>
     tls_value (snd (tss_set self k v w)) self k = v \<and>
     impl_tss_dtor_tbl (snd (tss_set self k v w)) = impl_tss_dtor_tbl w"
  by (simp add: tss_set_allocated)

lemma tls_value_impl_tss_dtor_register:
  "tls_value (snd (impl_tss_dtor_register k d w)) = tls_value w"
  by (simp add: impl_tss_dtor_register_def Let_def)

lemma tss_create_no_dtor:
  "tss_create r (Some k0) 0 w =
     Inr (if r \<noteq> 0xFFFFFFFF then thrd_success else thrd_error, r, snd (TlsAlloc r w))"
  by (subst tss_create_def, subst TlsAlloc_result) simp

lemma tss_create_value_null:
  assumes "tss_create r kp d w = Inr (thrd_success, k, w1)"
  shows "tls_value w1 t k = 0"
proof -
  have ne: "thrd_error \<noteq> thrd_success"
    by (simp add: thrd_error_def thrd_success_def)
  obtain k0 where kp: "kp = Some k0"
    using assms by (cases kp) (simp_all add: tss_create_def)
  have zero: "tls_value (snd (TlsAlloc r w)) t r = 0" if "r \<noteq> 0xFFFFFFFF"
    using that by (simp add: TlsAlloc_def TLS_OUT_OF_INDEXES_def)
  show ?thesis
  proof (cases "d = 0")
    case True
    with assms kp ne have "r \<noteq> 0xFFFFFFFF" "k = r" "w1 = snd (TlsAlloc r w)"
      by (auto simp add: tss_create_no_dtor split: if_splits)
    with zero show ?thesis by simp
  next
    case False
    obtain rc w2 where reg: "impl_tss_dtor_register r d (snd (TlsAlloc r w)) = (rc, w2)"
      by (cases "impl_tss_dtor_register r d (snd (TlsAlloc r w))")
    with assms kp ne False have "r \<noteq> 0xFFFFFFFF" "k = r" "w1 = w2"
      by (auto simp add: tss_create_unfold split: if_splits)
    moreover from reg have "tls_value w2 = tls_value (snd (TlsAlloc r w))"
      using tls_value_impl_tss_dtor_register [of r d "snd (TlsAlloc r w)"] by simp
    ultimately show ?thesis using zero by simp
  qed
qed

section \<open>Facts about \<^verbatim>\<open>thrd_join\<close>\<close>

lemma thrd_join_blocks: "thrd_join None exit_code thr res handles = None"
  by (simp add: thrd_join_def)

lemma thrd_join_stores_exit_code:
  "thrd_join (Some WAIT_OBJECT_0) (Some code) thr (Some old) handles =
     Some (thrd_success, Some code, handles - {thr})"
  by (simp add: thrd_join_def CloseHandle_def)

lemma thrd_join_without_res:
  "thrd_join (Some WAIT_OBJECT_0) exit_code thr None handles =
     Some (thrd_success, None, handles - {thr})"
  by (simp add: thrd_join_def CloseHandle_def)

lemma thrd_join_exit_code_failed:
  "thrd_join (Some WAIT_OBJECT_0) None thr (Some old) handles =
     Some (thrd_error, Some old, handles - {thr})"
  by (simp add: thrd_join_def CloseHandle_def)

section \<open>The claims\<close>

subsection \<open>C1: \<^verbatim>\<open>call_once\<close> runs the function exactly once\<close>

text \<open>
  C1, for the emulated path: whatever the number of callers and however their steps
  interleave, the function is entered at most once and has returned no more often than
  it was entered; a caller has returned from \<^verbatim>\<open>call_once\<close> only when the function
  has been entered exactly once and has returned, and the status is "completed" (2); at
  most one caller, the winner of the exchange, is ever between its exchange and its
  store; and the status is 2 only after the function has run to its end.
\<close>

theorem call_once_exactly_once:
  "entered (call_once_run sched once_init) \<le> 1 \<and>
   finished (call_once_run sched once_init) \<le> entered (call_once_run sched once_init) \<and>
   (\<forall>t. pc (call_once_run sched once_init) t = Returned \<longrightarrow>
      entered (call_once_run sched once_init) = 1 \<and>
      finished (call_once_run sched once_init) = 1 \<and>
      status (call_once_run sched once_init) = 2) \<and>
   (\<forall>t u. once_winner (pc (call_once_run sched once_init) t) \<and>
          once_winner (pc (call_once_run sched once_init) u) \<longrightarrow> t = u) \<and>
   (status (call_once_run sched once_init) = 2 \<longrightarrow>
      entered (call_once_run sched once_init) = 1 \<and>
      finished (call_once_run sched once_init) = 1)"
proof -
  define s where "s = call_once_run sched once_init"
  have inv: "once_inv s"
    unfolding s_def by (rule once_inv_run [OF once_inv_init])
  then have ok: "once_pc_ok s (pc s t)" for t
    unfolding once_inv_def by simp
  from inv have compl: "status s = 2 \<longrightarrow> entered s = 1 \<and> finished s = 1"
    unfolding once_inv_def by simp
  have ret: "\<forall>t. pc s t = Returned \<longrightarrow> entered s = 1 \<and> finished s = 1 \<and> status s = 2"
  proof (intro allI impI)
    fix t assume "pc s t = Returned"
    with ok [of t] have "status s = 2" by simp
    with compl show "entered s = 1 \<and> finished s = 1 \<and> status s = 2" by simp
  qed
  from inv have "entered s \<le> 1" "finished s \<le> entered s"
    "\<forall>t u. once_winner (pc s t) \<and> once_winner (pc s u) \<longrightarrow> t = u"
    unfolding once_inv_def by simp_all
  with ret compl show ?thesis
    unfolding s_def by simp
qed

text \<open>
  Witness for C1: three callers; thread 0 wins the exchange, threads 1 and 2 spin while
  it runs the function; in the end all three have returned and the function ran once.
\<close>

theorem call_once_exactly_once_witness:
  "pc (call_once_run [0, 1, 2, 0, 1, 0, 2, 0, 1, 2] once_init) 0 = Returned \<and>
   pc (call_once_run [0, 1, 2, 0, 1, 0, 2, 0, 1, 2] once_init) 1 = Returned \<and>
   pc (call_once_run [0, 1, 2, 0, 1, 0, 2, 0, 1, 2] once_init) 2 = Returned \<and>
   entered (call_once_run [0, 1, 2, 0, 1, 0, 2, 0, 1, 2] once_init) = 1 \<and>
   finished (call_once_run [0, 1, 2, 0, 1, 0, 2, 0, 1, 2] once_init) = 1 \<and>
   status (call_once_run [0, 1, 2, 0, 1, 0, 2, 0, 1, 2] once_init) = 2"
  using call_once_exactly_once [of "[0, 1, 2, 0, 1, 0, 2, 0, 1, 2]"]
  by (simp add: call_once_step_def once_init_def)

subsection \<open>C2: \<^verbatim>\<open>mtx_timedlock\<close> is a poll loop\<close>



subsection \<open>C3: \<^verbatim>\<open>thrd_join\<close> and the thread handle\<close>

text \<open>
  C3 at the failing input: when \<^verbatim>\<open>WaitForSingleObject\<close> returns \<^verbatim>\<open>WAIT_FAILED\<close>
  for the open handle 7, \<^verbatim>\<open>thrd_join\<close> returns \<^verbatim>\<open>thrd_error\<close> and the handle is
  still open, with \<^verbatim>\<open>res\<close> null or not; the other error return, after a failed
  \<^verbatim>\<open>GetExitCodeThread\<close>, closes the handle.
\<close>

theorem thrd_join_wait_failed_leaks:
  "thrd_join (Some WAIT_FAILED) (Some 42) 7 (Some 0) {7} = Some (thrd_error, Some 0, {7}) \<and>
   thrd_join (Some WAIT_FAILED) (Some 42) 7 None {7} = Some (thrd_error, None, {7}) \<and>
   thrd_join (Some WAIT_OBJECT_0) None 7 (Some 0) {7} = Some (thrd_error, Some 0, {})"
  by (simp add: thrd_join_def WAIT_FAILED_def WAIT_OBJECT_0_def CloseHandle_def)

subsection \<open>C4: absolute deadline to relative milliseconds\<close>

text \<open>
  C4, as stated, fails at two kinds of deadlines in the future. A deadline that lies
  \<open>2 ^ 32\<close> milliseconds (about 49.7 days) after the current time: the cast to
  \<^verbatim>\<open>DWORD\<close> makes the function return 0 and not the difference of the two
  millisecond values. And a deadline of 9223372036854776 seconds, one second after the
  current time: its millisecond value does not fit \<^verbatim>\<open>time_t\<close>, the product wraps
  around, and the function returns 0 and not 1000.
\<close>

theorem abs2relmsec_counterexample:
  "msec_fits_time_t \<lparr>tv_sec = 1704294967, tv_nsec = 296000000\<rparr> \<and>
   msec_fits_time_t \<lparr>tv_sec = 1700000000, tv_nsec = 0\<rparr> \<and>
   spec_msec \<lparr>tv_sec = 1700000000, tv_nsec = 0\<rparr>
     < spec_msec \<lparr>tv_sec = 1704294967, tv_nsec = 296000000\<rparr> \<and>
   uint (impl_abs2relmsec \<lparr>tv_sec = 1704294967, tv_nsec = 296000000\<rparr>
           \<lparr>tv_sec = 1700000000, tv_nsec = 0\<rparr>)
     \<noteq> spec_msec \<lparr>tv_sec = 1704294967, tv_nsec = 296000000\<rparr>
         - spec_msec \<lparr>tv_sec = 1700000000, tv_nsec = 0\<rparr> \<and>
   spec_msec \<lparr>tv_sec = 9223372036854775, tv_nsec = 0\<rparr>
     < spec_msec \<lparr>tv_sec = 9223372036854776, tv_nsec = 0\<rparr> \<and>
   uint (impl_abs2relmsec \<lparr>tv_sec = 9223372036854776, tv_nsec = 0\<rparr>
           \<lparr>tv_sec = 9223372036854775, tv_nsec = 0\<rparr>)
     \<noteq> spec_msec \<lparr>tv_sec = 9223372036854776, tv_nsec = 0\<rparr>
         - spec_msec \<lparr>tv_sec = 9223372036854775, tv_nsec = 0\<rparr>"
  by (simp add: msec_fits_time_t_def spec_msec_def impl_abs2relmsec_def impl_timespec2msec_def
        word_sless_alt signed_divide_int_def)

text \<open>
  C4, amended: the conversion computes the millisecond values of the deadline and of the
  current time in the signed 64-bit \<^verbatim>\<open>time_t\<close>; each is seconds times 1000 plus
  nanoseconds divided by 1000000, truncating, whenever that number fits \<^verbatim>\<open>time_t\<close>.
  It returns the deadline's value minus the current time's value when the deadline's
  value is the greater one by less than \<open>2 ^ 32\<close> milliseconds, and exactly zero when
  the deadline's value is at or before the current time's. So, for time stamps whose
  millisecond values fit \<^verbatim>\<open>time_t\<close>, it returns the deadline in integer milliseconds
  minus the current time in integer milliseconds when the deadline is in the future by
  less than \<open>2 ^ 32\<close> milliseconds, and zero when the deadline is at or before the
  current time. The result is an unsigned \<^verbatim>\<open>DWORD\<close>, so it is never negative.
\<close>

theorem abs2relmsec_in_range:
  "(msec_fits_time_t abs_time \<and> msec_fits_time_t now \<longrightarrow>
      (spec_msec now < spec_msec abs_time \<and> spec_msec abs_time - spec_msec now < 2 ^ 32 \<longrightarrow>
         uint (impl_abs2relmsec abs_time now) = spec_msec abs_time - spec_msec now) \<and>
      (spec_msec abs_time \<le> spec_msec now \<longrightarrow> impl_abs2relmsec abs_time now = 0)) \<and>
   (msec_fits_time_t ts \<longrightarrow> sint (impl_timespec2msec ts) = spec_msec ts) \<and>
   (sint (impl_timespec2msec now) < sint (impl_timespec2msec abs_time) \<and>
    sint (impl_timespec2msec abs_time) - sint (impl_timespec2msec now) < 2 ^ 32 \<longrightarrow>
      uint (impl_abs2relmsec abs_time now) =
        sint (impl_timespec2msec abs_time) - sint (impl_timespec2msec now)) \<and>
   (sint (impl_timespec2msec abs_time) \<le> sint (impl_timespec2msec now) \<longrightarrow>
      impl_abs2relmsec abs_time now = 0)"
proof (intro conjI impI)
  assume "msec_fits_time_t ts"
  then show "sint (impl_timespec2msec ts) = spec_msec ts"
    by (rule sint_impl_timespec2msec_fits)
next
  assume fits: "msec_fits_time_t abs_time \<and> msec_fits_time_t now"
  {
    assume "spec_msec now < spec_msec abs_time \<and> spec_msec abs_time - spec_msec now < 2 ^ 32"
    with fits show "uint (impl_abs2relmsec abs_time now) = spec_msec abs_time - spec_msec now"
      using impl_abs2relmsec_future_fits [of abs_time now] by simp
  }
  {
    assume "spec_msec abs_time \<le> spec_msec now"
    with fits show "impl_abs2relmsec abs_time now = 0"
      by (simp add: impl_abs2relmsec_past_fits)
  }
next
  assume "sint (impl_timespec2msec now) < sint (impl_timespec2msec abs_time) \<and>
    sint (impl_timespec2msec abs_time) - sint (impl_timespec2msec now) < 2 ^ 32"
  then show "uint (impl_abs2relmsec abs_time now) =
      sint (impl_timespec2msec abs_time) - sint (impl_timespec2msec now)"
    by (simp add: impl_abs2relmsec_future_time_t)
next
  assume "sint (impl_timespec2msec abs_time) \<le> sint (impl_timespec2msec now)"
  then show "impl_abs2relmsec abs_time now = 0"
    by (rule impl_abs2relmsec_past_time_t)
qed

text \<open>
  Witness for C4: a deadline 500 ms ahead gives 500; the same deadline read 600 ms later
  gives 0; with both stamps before the epoch, a deadline 250 ms ahead gives 250; and with
  both millisecond values beyond \<^verbatim>\<open>time_t\<close>, a deadline 1000 ms ahead still gives 1000.
\<close>

theorem abs2relmsec_in_range_witness:
  "uint (impl_abs2relmsec \<lparr>tv_sec = 1700000000, tv_nsec = 500000000\<rparr>
           \<lparr>tv_sec = 1700000000, tv_nsec = 0\<rparr>) = 500 \<and>
   impl_abs2relmsec \<lparr>tv_sec = 1700000000, tv_nsec = 0\<rparr>
     \<lparr>tv_sec = 1700000000, tv_nsec = 600000000\<rparr> = 0 \<and>
   uint (impl_abs2relmsec \<lparr>tv_sec = - 5, tv_nsec = 0\<rparr> \<lparr>tv_sec = - 6, tv_nsec = 750000000\<rparr>) = 250 \<and>
   sint (impl_timespec2msec \<lparr>tv_sec = - 6, tv_nsec = 750000000\<rparr>) = - 5250 \<and>
   uint (impl_abs2relmsec \<lparr>tv_sec = 9223372036854777, tv_nsec = 0\<rparr>
           \<lparr>tv_sec = 9223372036854776, tv_nsec = 0\<rparr>) = 1000"
  using abs2relmsec_in_range [of "\<lparr>tv_sec = 1700000000, tv_nsec = 500000000\<rparr>"
                                 "\<lparr>tv_sec = 1700000000, tv_nsec = 0\<rparr>"
                                 "\<lparr>tv_sec = - 6, tv_nsec = 750000000\<rparr>"]
        abs2relmsec_in_range [of "\<lparr>tv_sec = 1700000000, tv_nsec = 0\<rparr>"
                                 "\<lparr>tv_sec = 1700000000, tv_nsec = 600000000\<rparr>"]
        abs2relmsec_in_range [of "\<lparr>tv_sec = - 5, tv_nsec = 0\<rparr>"
                                 "\<lparr>tv_sec = - 6, tv_nsec = 750000000\<rparr>"]
        abs2relmsec_in_range [of "\<lparr>tv_sec = 9223372036854777, tv_nsec = 0\<rparr>"
                                 "\<lparr>tv_sec = 9223372036854776, tv_nsec = 0\<rparr>"]
  by (simp add: msec_fits_time_t_def spec_msec_def signed_divide_int_def
        impl_timespec2msec_def)

subsection \<open>C5: \<^verbatim>\<open>tss_create\<close> with a destructor\<close>

text \<open>
  C5, as stated, fails: with a free entry in the table and a non-null destructor, the
  call returns \<^verbatim>\<open>thrd_error\<close>, not success, when \<^verbatim>\<open>TlsAlloc\<close> has returned
  \<^verbatim>\<open>0xFFFFFFFF\<close>.
\<close>

theorem tss_create_counterexample:
  "dtor (impl_tss_dtor_tbl initial_tss_world 0) = 0 \<and>
   tss_create 0xFFFFFFFF (Some 0) 1 initial_tss_world =
     Inr (thrd_error, 0xFFFFFFFF,
          initial_tss_world\<lparr>impl_tss_dtor_tbl :=
            (impl_tss_dtor_tbl initial_tss_world)(0 := \<lparr>key = 0xFFFFFFFF, dtor = 1\<rparr>)\<rparr>) \<and>
   thrd_error \<noteq> thrd_success"
proof -
  have free: "dtor (impl_tss_dtor_tbl initial_tss_world 0) = 0"
    by (simp add: initial_tss_world_def)
  have "impl_tss_dtor_register 0xFFFFFFFF 1 initial_tss_world =
      (0, initial_tss_world\<lparr>impl_tss_dtor_tbl :=
            (impl_tss_dtor_tbl initial_tss_world)(0 := \<lparr>key = 0xFFFFFFFF, dtor = 1\<rparr>)\<rparr>)"
    using free by (intro impl_tss_dtor_register_free) simp_all
  then show ?thesis
    using free
    by (simp add: tss_create_def TlsAlloc_def TLS_OUT_OF_INDEXES_def thrd_error_def
          thrd_success_def)
qed

text \<open>
  C5, amended: \<^verbatim>\<open>tss_create\<close> with a non-null destructor returns \<^verbatim>\<open>thrd_error\<close>,
  leaves the table as it was and releases the native slot when none of the 64 entries is
  free; when entry \<open>i\<close> is the first free one and the native allocation succeeded, the
  pair of the slot and the destructor is stored at \<open>i\<close>, the slot stays allocated and
  the call returns \<^verbatim>\<open>thrd_success\<close>; when the native allocation failed the call
  returns \<^verbatim>\<open>thrd_error\<close>.
\<close>

theorem tss_create_registers:
  assumes "d \<noteq> 0"
  shows "((\<forall>j<64. dtor (impl_tss_dtor_tbl w j) \<noteq> 0) \<longrightarrow>
            (\<exists>w'. tss_create r (Some k0) d w = Inr (thrd_error, r, w') \<and>
                  impl_tss_dtor_tbl w' = impl_tss_dtor_tbl w \<and> r \<notin> tls_slots w')) \<and>
         (\<forall>i<64. dtor (impl_tss_dtor_tbl w i) = 0 \<and>
                 (\<forall>j<i. dtor (impl_tss_dtor_tbl w j) \<noteq> 0) \<and> r \<noteq> 0xFFFFFFFF \<longrightarrow>
            (\<exists>w'. tss_create r (Some k0) d w = Inr (thrd_success, r, w') \<and>
                  impl_tss_dtor_tbl w' = (impl_tss_dtor_tbl w)(i := \<lparr>key = r, dtor = d\<rparr>) \<and>
                  tls_slots w' = insert r (tls_slots w))) \<and>
         (r = 0xFFFFFFFF \<longrightarrow> (\<exists>w'. tss_create r (Some k0) d w = Inr (thrd_error, r, w')))"
proof (intro conjI impI allI)
  assume full: "\<forall>j<64. dtor (impl_tss_dtor_tbl w j) \<noteq> 0"
  then have "impl_tss_dtor_register r d (snd (TlsAlloc r w)) = (1, snd (TlsAlloc r w))"
    by (intro impl_tss_dtor_register_full) simp
  then have "tss_create r (Some k0) d w = Inr (thrd_error, r, TlsFree r (snd (TlsAlloc r w)))"
    by (simp add: tss_create_unfold [OF assms])
  moreover have "impl_tss_dtor_tbl (TlsFree r (snd (TlsAlloc r w))) = impl_tss_dtor_tbl w"
    by (simp add: TlsFree_def)
  moreover have "r \<notin> tls_slots (TlsFree r (snd (TlsAlloc r w)))"
    by (simp add: TlsFree_def)
  ultimately show "\<exists>w'. tss_create r (Some k0) d w = Inr (thrd_error, r, w') \<and>
      impl_tss_dtor_tbl w' = impl_tss_dtor_tbl w \<and> r \<notin> tls_slots w'"
    by blast
next
  fix i
  assume "i < 64"
    and "dtor (impl_tss_dtor_tbl w i) = 0 \<and>
         (\<forall>j<i. dtor (impl_tss_dtor_tbl w j) \<noteq> 0) \<and> r \<noteq> 0xFFFFFFFF"
  then have "impl_tss_dtor_register r d (snd (TlsAlloc r w)) =
      (0, (snd (TlsAlloc r w))\<lparr>impl_tss_dtor_tbl :=
             (impl_tss_dtor_tbl (snd (TlsAlloc r w)))(i := \<lparr>key = r, dtor = d\<rparr>)\<rparr>)"
    and valid: "r \<noteq> 0xFFFFFFFF"
    by (simp_all add: impl_tss_dtor_register_free)
  then show "\<exists>w'. tss_create r (Some k0) d w = Inr (thrd_success, r, w') \<and>
      impl_tss_dtor_tbl w' = (impl_tss_dtor_tbl w)(i := \<lparr>key = r, dtor = d\<rparr>) \<and>
      tls_slots w' = insert r (tls_slots w)"
    by (simp add: tss_create_unfold [OF assms] tls_slots_TlsAlloc)
next
  assume "r = 0xFFFFFFFF"
  then show "\<exists>w'. tss_create r (Some k0) d w = Inr (thrd_error, r, w')"
    by (simp add: tss_create_unfold [OF assms] split: prod.split)
qed

text \<open>
  Witness for C5: a full table; a table whose first free entry is at index 2; a failed
  allocation.
\<close>

theorem tss_create_registers_witness:
  "(\<exists>w'. tss_create 5 (Some 0) 7
            (initial_tss_world\<lparr>impl_tss_dtor_tbl := (\<lambda>i. \<lparr>key = of_nat i, dtor = 1\<rparr>)\<rparr>)
          = Inr (thrd_error, 5, w') \<and>
          impl_tss_dtor_tbl w' = (\<lambda>i. \<lparr>key = of_nat i, dtor = 1\<rparr>) \<and> 5 \<notin> tls_slots w') \<and>
   (\<exists>w'. tss_create 5 (Some 0) 7
            (initial_tss_world\<lparr>impl_tss_dtor_tbl :=
               (\<lambda>i. \<lparr>key = of_nat i, dtor = if i = 2 \<or> i = 9 then 0 else 1\<rparr>)\<rparr>)
          = Inr (thrd_success, 5, w') \<and>
          impl_tss_dtor_tbl w' 2 = \<lparr>key = 5, dtor = 7\<rparr> \<and>
          impl_tss_dtor_tbl w' 9 = \<lparr>key = 9, dtor = 0\<rparr> \<and> tls_slots w' = {5}) \<and>
   (\<exists>w'. tss_create 0xFFFFFFFF (Some 0) 7 initial_tss_world = Inr (thrd_error, 0xFFFFFFFF, w'))"
  using
    tss_create_registers [of 7
      "initial_tss_world\<lparr>impl_tss_dtor_tbl := (\<lambda>i. \<lparr>key = of_nat i, dtor = 1\<rparr>)\<rparr>" 5 0]
    tss_create_registers [of 7
      "initial_tss_world\<lparr>impl_tss_dtor_tbl :=
         (\<lambda>i. \<lparr>key = of_nat i, dtor = if i = 2 \<or> i = 9 then 0 else 1\<rparr>)\<rparr>" 5 0,
      THEN conjunct2, THEN conjunct1, THEN spec, of 2]
    tss_create_registers [of 7 initial_tss_world "0xFFFFFFFF" 0]
  by (fastforce simp add: initial_tss_world_def less_Suc_eq)

subsection \<open>C6: the destructor sweep at thread exit\<close>

text \<open>
  C6, as stated, fails. A slot that was set once gets two calls when its key has been
  deleted and created again: \<^verbatim>\<open>tss_create\<close> gets the native index 5 and registers
  destructor 7, \<^verbatim>\<open>tss_delete\<close> leaves that entry in the table, \<^verbatim>\<open>tss_create\<close> gets
  index 5 again and registers destructor 8, thread 1 sets the slot to 9, and the sweep of
  thread 1 calls both destructors with 9. And a slot that a destructor sets after the
  sweep has passed its entry ends with a value and without a call: with entries for the
  slots 5 and 6 and a value only in slot 6, the destructor of slot 6 stores 3 in slot 5
  with \<^verbatim>\<open>tss_set\<close>, and destructor 7 is never called.
\<close>

theorem dtor_sweep_counterexample:
  "tss_create 5 (Some 0) 7 initial_tss_world =
     Inr (thrd_success, 5,
          initial_tss_world
            \<lparr>impl_tss_dtor_tbl := (impl_tss_dtor_tbl initial_tss_world)(0 := \<lparr>key = 5, dtor = 7\<rparr>),
             tls_slots := {5}\<rparr>) \<and>
   tss_create 5 (Some 0) 8
     (tss_delete 5
        (initial_tss_world
           \<lparr>impl_tss_dtor_tbl := (impl_tss_dtor_tbl initial_tss_world)(0 := \<lparr>key = 5, dtor = 7\<rparr>),
            tls_slots := {5}\<rparr>)) =
     Inr (thrd_success, 5,
          initial_tss_world
            \<lparr>impl_tss_dtor_tbl := (impl_tss_dtor_tbl initial_tss_world)
               (0 := \<lparr>key = 5, dtor = 7\<rparr>, 1 := \<lparr>key = 5, dtor = 8\<rparr>),
             tls_slots := {5}\<rparr>) \<and>
   tss_set 1 5 9
     (initial_tss_world
        \<lparr>impl_tss_dtor_tbl := (impl_tss_dtor_tbl initial_tss_world)
           (0 := \<lparr>key = 5, dtor = 7\<rparr>, 1 := \<lparr>key = 5, dtor = 8\<rparr>),
         tls_slots := {5}\<rparr>) =
     (thrd_success,
      initial_tss_world
        \<lparr>impl_tss_dtor_tbl := (impl_tss_dtor_tbl initial_tss_world)
           (0 := \<lparr>key = 5, dtor = 7\<rparr>, 1 := \<lparr>key = 5, dtor = 8\<rparr>),
         tls_slots := {5},
         tls_value := (tls_value initial_tss_world)(1 := (tls_value initial_tss_world 1)(5 := 9))\<rparr>) \<and>
   snd (impl_tss_dtor_invoke dtor_no_effect 1
     (initial_tss_world
        \<lparr>impl_tss_dtor_tbl := (impl_tss_dtor_tbl initial_tss_world)
           (0 := \<lparr>key = 5, dtor = 7\<rparr>, 1 := \<lparr>key = 5, dtor = 8\<rparr>),
         tls_slots := {5},
         tls_value := (tls_value initial_tss_world)(1 := (tls_value initial_tss_world 1)(5 := 9))\<rparr>)) =
     [(5, 7, 9), (5, 8, 9)] \<and>
   snd (impl_tss_dtor_invoke (dtor_sets_slot 1 5 3) 1
     (initial_tss_world
        \<lparr>impl_tss_dtor_tbl := (impl_tss_dtor_tbl initial_tss_world)
           (0 := \<lparr>key = 5, dtor = 7\<rparr>, 1 := \<lparr>key = 6, dtor = 8\<rparr>),
         tls_slots := {5, 6},
         tls_value := (tls_value initial_tss_world)(1 := (tls_value initial_tss_world 1)(6 := 4))\<rparr>)) =
     [(6, 8, 4)] \<and>
   tls_value (fst (impl_tss_dtor_invoke (dtor_sets_slot 1 5 3) 1
     (initial_tss_world
        \<lparr>impl_tss_dtor_tbl := (impl_tss_dtor_tbl initial_tss_world)
           (0 := \<lparr>key = 5, dtor = 7\<rparr>, 1 := \<lparr>key = 6, dtor = 8\<rparr>),
         tls_slots := {5, 6},
         tls_value := (tls_value initial_tss_world)(1 := (tls_value initial_tss_world 1)(6 := 4))\<rparr>))) 1 5 = 3"
proof (intro conjI)
  have free0: "impl_tss_dtor_register 5 7 (snd (TlsAlloc 5 initial_tss_world)) =
      (0, (snd (TlsAlloc 5 initial_tss_world))\<lparr>impl_tss_dtor_tbl :=
         (impl_tss_dtor_tbl (snd (TlsAlloc 5 initial_tss_world)))(0 := \<lparr>key = 5, dtor = 7\<rparr>)\<rparr>)"
    by (intro impl_tss_dtor_register_free) (simp_all add: initial_tss_world_def)
  have a0: "snd (TlsAlloc 5 initial_tss_world) = initial_tss_world\<lparr>tls_slots := {5}\<rparr>"
    by (simp add: TlsAlloc_def TLS_OUT_OF_INDEXES_def initial_tss_world_def fun_upd_idem)
  show "tss_create 5 (Some 0) 7 initial_tss_world =
     Inr (thrd_success, 5,
          initial_tss_world
            \<lparr>impl_tss_dtor_tbl := (impl_tss_dtor_tbl initial_tss_world)(0 := \<lparr>key = 5, dtor = 7\<rparr>),
             tls_slots := {5}\<rparr>)"
    using free0 unfolding a0 by (simp add: tss_create_unfold a0)
next
  let ?w = "tss_delete 5
        (initial_tss_world
           \<lparr>impl_tss_dtor_tbl := (impl_tss_dtor_tbl initial_tss_world)(0 := \<lparr>key = 5, dtor = 7\<rparr>),
            tls_slots := {5}\<rparr>)"
  have a1: "snd (TlsAlloc 5 ?w) = initial_tss_world
      \<lparr>impl_tss_dtor_tbl := (impl_tss_dtor_tbl initial_tss_world)(0 := \<lparr>key = 5, dtor = 7\<rparr>),
       tls_slots := {5}\<rparr>"
    by (simp add: tss_delete_def TlsFree_def TlsAlloc_def TLS_OUT_OF_INDEXES_def
          initial_tss_world_def fun_upd_idem)
  have free1: "impl_tss_dtor_register 5 8 (snd (TlsAlloc 5 ?w)) =
      (0, (snd (TlsAlloc 5 ?w))\<lparr>impl_tss_dtor_tbl :=
         (impl_tss_dtor_tbl (snd (TlsAlloc 5 ?w)))(Suc 0 := \<lparr>key = 5, dtor = 8\<rparr>)\<rparr>)"
    by (intro impl_tss_dtor_register_free)
      (simp_all add: tss_delete_def TlsFree_def initial_tss_world_def)
  show "tss_create 5 (Some 0) 8 ?w =
     Inr (thrd_success, 5,
          initial_tss_world
            \<lparr>impl_tss_dtor_tbl := (impl_tss_dtor_tbl initial_tss_world)
               (0 := \<lparr>key = 5, dtor = 7\<rparr>, 1 := \<lparr>key = 5, dtor = 8\<rparr>),
             tls_slots := {5}\<rparr>)"
    using free1 unfolding a1 by (simp add: tss_create_unfold a1)
next
  show "tss_set 1 5 9
     (initial_tss_world
        \<lparr>impl_tss_dtor_tbl := (impl_tss_dtor_tbl initial_tss_world)
           (0 := \<lparr>key = 5, dtor = 7\<rparr>, 1 := \<lparr>key = 5, dtor = 8\<rparr>),
         tls_slots := {5}\<rparr>) =
     (thrd_success,
      initial_tss_world
        \<lparr>impl_tss_dtor_tbl := (impl_tss_dtor_tbl initial_tss_world)
           (0 := \<lparr>key = 5, dtor = 7\<rparr>, 1 := \<lparr>key = 5, dtor = 8\<rparr>),
         tls_slots := {5},
         tls_value := (tls_value initial_tss_world)(1 := (tls_value initial_tss_world 1)(5 := 9))\<rparr>)"
    by (simp add: tss_set_allocated)
next
  show "snd (impl_tss_dtor_invoke dtor_no_effect 1
     (initial_tss_world
        \<lparr>impl_tss_dtor_tbl := (impl_tss_dtor_tbl initial_tss_world)
           (0 := \<lparr>key = 5, dtor = 7\<rparr>, 1 := \<lparr>key = 5, dtor = 8\<rparr>),
         tls_slots := {5},
         tls_value := (tls_value initial_tss_world)(1 := (tls_value initial_tss_world 1)(5 := 9))\<rparr>)) =
     [(5, 7, 9), (5, 8, 9)]"
    by code_simp
next
  show "snd (impl_tss_dtor_invoke (dtor_sets_slot 1 5 3) 1
     (initial_tss_world
        \<lparr>impl_tss_dtor_tbl := (impl_tss_dtor_tbl initial_tss_world)
           (0 := \<lparr>key = 5, dtor = 7\<rparr>, 1 := \<lparr>key = 6, dtor = 8\<rparr>),
         tls_slots := {5, 6},
         tls_value := (tls_value initial_tss_world)(1 := (tls_value initial_tss_world 1)(6 := 4))\<rparr>)) =
     [(6, 8, 4)]"
    by code_simp
next
  show "tls_value (fst (impl_tss_dtor_invoke (dtor_sets_slot 1 5 3) 1
     (initial_tss_world
        \<lparr>impl_tss_dtor_tbl := (impl_tss_dtor_tbl initial_tss_world)
           (0 := \<lparr>key = 5, dtor = 7\<rparr>, 1 := \<lparr>key = 6, dtor = 8\<rparr>),
         tls_slots := {5, 6},
         tls_value := (tls_value initial_tss_world)(1 := (tls_value initial_tss_world 1)(6 := 4))\<rparr>))) 1 5 = 3"
    by code_simp
qed

text \<open>
  C6, amended: for every behaviour of the destructors, the sweep visits the table by
  ascending index, each entry once, and at a registered entry it calls the destructor
  with the value the exiting thread holds for the entry's slot at that moment if and only
  if that value is not null. Ascending index is the order of insertion: when the
  registered entries are those below index \<open>n\<close>, the next registration goes to index
  \<open>n\<close>. When the destructors leave the table and the values of the exiting thread
  unchanged, the calls are, entry by entry, those owed in the state at thread exit; a
  slot whose value is null gets no call, and a slot whose value is not null gets one call
  with that value for each entry registered under its key: exactly one when its key is
  registered once. The value a thread holds is the one it last set with \<^verbatim>\<open>tss_set\<close>,
  and it is null in a slot that \<^verbatim>\<open>tss_create\<close> has just returned.
\<close>

theorem dtor_sweep_calls:
  "impl_tss_dtor_invoke run self w =
     fold (spec_dtor_visit run self) [0..<EMULATED_THREADS_TSS_DTOR_SLOTNUM] (w, []) \<and>
   (n < 64 \<and> (\<forall>j. dtor (impl_tss_dtor_tbl w j) \<noteq> 0 \<longleftrightarrow> j < n) \<longrightarrow>
      impl_tss_dtor_register k d w =
        (0, w\<lparr>impl_tss_dtor_tbl := (impl_tss_dtor_tbl w)(n := \<lparr>key = k, dtor = d\<rparr>)\<rparr>)) \<and>
   ((\<forall>d' v' u. impl_tss_dtor_tbl (run d' v' u) = impl_tss_dtor_tbl u \<and>
               tls_value (run d' v' u) self = tls_value u self) \<longrightarrow>
      snd (impl_tss_dtor_invoke run self w) =
        concat (map (spec_dtor_calls self w) [0..<EMULATED_THREADS_TSS_DTOR_SLOTNUM]) \<and>
      (\<forall>slot. filter (\<lambda>c. fst c = slot) (snd (impl_tss_dtor_invoke run self w)) =
         (if tls_value w self slot = 0 then []
          else map (\<lambda>i. (slot, dtor (impl_tss_dtor_tbl w i), tls_value w self slot))
                 (filter (\<lambda>i. dtor (impl_tss_dtor_tbl w i) \<noteq> 0 \<and> key (impl_tss_dtor_tbl w i) = slot)
                    [0..<EMULATED_THREADS_TSS_DTOR_SLOTNUM]))) \<and>
      (\<forall>slot i. i < EMULATED_THREADS_TSS_DTOR_SLOTNUM \<and>
                (\<forall>j<EMULATED_THREADS_TSS_DTOR_SLOTNUM.
                   dtor (impl_tss_dtor_tbl w j) \<noteq> 0 \<and> key (impl_tss_dtor_tbl w j) = slot \<longleftrightarrow> j = i) \<and>
                tls_value w self slot \<noteq> 0 \<longrightarrow>
         filter (\<lambda>c. fst c = slot) (snd (impl_tss_dtor_invoke run self w)) =
           [(slot, dtor (impl_tss_dtor_tbl w i), tls_value w self slot)])) \<and>
   (a \<in> tls_slots w \<longrightarrow>
      tls_value (snd (tss_set self a v w)) self a = v \<and>
      impl_tss_dtor_tbl (snd (tss_set self a v w)) = impl_tss_dtor_tbl w) \<and>
   (tss_create r kp d w = Inr (thrd_success, b, w1) \<longrightarrow> tls_value w1 self b = 0)"
proof (intro conjI impI allI)
  show "impl_tss_dtor_invoke run self w =
     fold (spec_dtor_visit run self) [0..<EMULATED_THREADS_TSS_DTOR_SLOTNUM] (w, [])"
    by (rule impl_tss_dtor_invoke_fold)
next
  assume "n < 64 \<and> (\<forall>j. dtor (impl_tss_dtor_tbl w j) \<noteq> 0 \<longleftrightarrow> j < n)"
  then show "impl_tss_dtor_register k d w =
      (0, w\<lparr>impl_tss_dtor_tbl := (impl_tss_dtor_tbl w)(n := \<lparr>key = k, dtor = d\<rparr>)\<rparr>)"
    by (intro impl_tss_dtor_register_appends) simp_all
next
  assume quiet: "\<forall>d' v' u. impl_tss_dtor_tbl (run d' v' u) = impl_tss_dtor_tbl u \<and>
      tls_value (run d' v' u) self = tls_value u self"
  then show calls: "snd (impl_tss_dtor_invoke run self w) =
      concat (map (spec_dtor_calls self w) [0..<EMULATED_THREADS_TSS_DTOR_SLOTNUM])"
    by (rule impl_tss_dtor_invoke_quiet)
  fix slot
  show per_slot: "filter (\<lambda>c. fst c = slot) (snd (impl_tss_dtor_invoke run self w)) =
      (if tls_value w self slot = 0 then []
       else map (\<lambda>i. (slot, dtor (impl_tss_dtor_tbl w i), tls_value w self slot))
              (filter (\<lambda>i. dtor (impl_tss_dtor_tbl w i) \<noteq> 0 \<and> key (impl_tss_dtor_tbl w i) = slot)
                 [0..<EMULATED_THREADS_TSS_DTOR_SLOTNUM]))"
    unfolding calls by (rule filter_slot_sweep)
  fix i
  assume once: "i < EMULATED_THREADS_TSS_DTOR_SLOTNUM \<and>
      (\<forall>j<EMULATED_THREADS_TSS_DTOR_SLOTNUM.
         dtor (impl_tss_dtor_tbl w j) \<noteq> 0 \<and> key (impl_tss_dtor_tbl w j) = slot \<longleftrightarrow> j = i) \<and>
      tls_value w self slot \<noteq> 0"
  then have "filter (\<lambda>i. dtor (impl_tss_dtor_tbl w i) \<noteq> 0 \<and> key (impl_tss_dtor_tbl w i) = slot)
      [0..<EMULATED_THREADS_TSS_DTOR_SLOTNUM] = [i]"
    by (intro filter_upt_single) simp_all
  with once show "filter (\<lambda>c. fst c = slot) (snd (impl_tss_dtor_invoke run self w)) =
      [(slot, dtor (impl_tss_dtor_tbl w i), tls_value w self slot)]"
    unfolding per_slot by simp
next
  assume "a \<in> tls_slots w"
  then show "tls_value (snd (tss_set self a v w)) self a = v"
    and "impl_tss_dtor_tbl (snd (tss_set self a v w)) = impl_tss_dtor_tbl w"
    by (simp_all add: tss_set_value)
next
  assume "tss_create r kp d w = Inr (thrd_success, b, w1)"
  then show "tls_value w1 self b = 0"
    by (rule tss_create_value_null)
qed

text \<open>
  Witness for C6: three registered entries, of which the second has no value in the
  exiting thread, and destructors that touch no storage. Slot 5 gets its one call, slot 3
  gets none, the next registration goes to index 3, a value set is the value held, and a
  slot just created holds null.
\<close>

theorem dtor_sweep_calls_witness:
  "snd (impl_tss_dtor_invoke dtor_no_effect 1
     \<lparr>impl_tss_dtor_tbl = (\<lambda>_. \<lparr>key = 0, dtor = 0\<rparr>)
        (0 := \<lparr>key = 5, dtor = 7\<rparr>, 1 := \<lparr>key = 3, dtor = 2\<rparr>, 2 := \<lparr>key = 6, dtor = 8\<rparr>),
      tls_slots = {3, 5, 6},
      tls_value = (\<lambda>_ _. 0)(1 := (\<lambda>_. 0)(5 := 9, 6 := 4))\<rparr>) = [(5, 7, 9), (6, 8, 4)] \<and>
   filter (\<lambda>c. fst c = 5) (snd (impl_tss_dtor_invoke dtor_no_effect 1
     \<lparr>impl_tss_dtor_tbl = (\<lambda>_. \<lparr>key = 0, dtor = 0\<rparr>)
        (0 := \<lparr>key = 5, dtor = 7\<rparr>, 1 := \<lparr>key = 3, dtor = 2\<rparr>, 2 := \<lparr>key = 6, dtor = 8\<rparr>),
      tls_slots = {3, 5, 6},
      tls_value = (\<lambda>_ _. 0)(1 := (\<lambda>_. 0)(5 := 9, 6 := 4))\<rparr>)) = [(5, 7, 9)] \<and>
   filter (\<lambda>c. fst c = 3) (snd (impl_tss_dtor_invoke dtor_no_effect 1
     \<lparr>impl_tss_dtor_tbl = (\<lambda>_. \<lparr>key = 0, dtor = 0\<rparr>)
        (0 := \<lparr>key = 5, dtor = 7\<rparr>, 1 := \<lparr>key = 3, dtor = 2\<rparr>, 2 := \<lparr>key = 6, dtor = 8\<rparr>),
      tls_slots = {3, 5, 6},
      tls_value = (\<lambda>_ _. 0)(1 := (\<lambda>_. 0)(5 := 9, 6 := 4))\<rparr>)) = [] \<and>
   impl_tss_dtor_register 4 1
     \<lparr>impl_tss_dtor_tbl = (\<lambda>_. \<lparr>key = 0, dtor = 0\<rparr>)
        (0 := \<lparr>key = 5, dtor = 7\<rparr>, 1 := \<lparr>key = 3, dtor = 2\<rparr>, 2 := \<lparr>key = 6, dtor = 8\<rparr>),
      tls_slots = {3, 5, 6},
      tls_value = (\<lambda>_ _. 0)(1 := (\<lambda>_. 0)(5 := 9, 6 := 4))\<rparr> =
     (0, \<lparr>impl_tss_dtor_tbl = (\<lambda>_. \<lparr>key = 0, dtor = 0\<rparr>)
           (0 := \<lparr>key = 5, dtor = 7\<rparr>, 1 := \<lparr>key = 3, dtor = 2\<rparr>, 2 := \<lparr>key = 6, dtor = 8\<rparr>,
            3 := \<lparr>key = 4, dtor = 1\<rparr>),
         tls_slots = {3, 5, 6},
         tls_value = (\<lambda>_ _. 0)(1 := (\<lambda>_. 0)(5 := 9, 6 := 4))\<rparr>) \<and>
   tls_value (snd (tss_set 1 3 11
     \<lparr>impl_tss_dtor_tbl = (\<lambda>_. \<lparr>key = 0, dtor = 0\<rparr>)
        (0 := \<lparr>key = 5, dtor = 7\<rparr>, 1 := \<lparr>key = 3, dtor = 2\<rparr>, 2 := \<lparr>key = 6, dtor = 8\<rparr>),
      tls_slots = {3, 5, 6},
      tls_value = (\<lambda>_ _. 0)(1 := (\<lambda>_. 0)(5 := 9, 6 := 4))\<rparr>)) 1 3 = 11 \<and>
   tss_create 4 (Some 0) 0
     \<lparr>impl_tss_dtor_tbl = (\<lambda>_. \<lparr>key = 0, dtor = 0\<rparr>)
        (0 := \<lparr>key = 5, dtor = 7\<rparr>, 1 := \<lparr>key = 3, dtor = 2\<rparr>, 2 := \<lparr>key = 6, dtor = 8\<rparr>),
      tls_slots = {3, 5, 6},
      tls_value = (\<lambda>_ _. 0)(1 := (\<lambda>_. 0)(5 := 9, 6 := 4))\<rparr> =
     Inr (thrd_success, 4, snd (TlsAlloc 4
       \<lparr>impl_tss_dtor_tbl = (\<lambda>_. \<lparr>key = 0, dtor = 0\<rparr>)
          (0 := \<lparr>key = 5, dtor = 7\<rparr>, 1 := \<lparr>key = 3, dtor = 2\<rparr>, 2 := \<lparr>key = 6, dtor = 8\<rparr>),
        tls_slots = {3, 5, 6},
        tls_value = (\<lambda>_ _. 0)(1 := (\<lambda>_. 0)(5 := 9, 6 := 4))\<rparr>)) \<and>
   tls_value (snd (TlsAlloc 4
     \<lparr>impl_tss_dtor_tbl = (\<lambda>_. \<lparr>key = 0, dtor = 0\<rparr>)
        (0 := \<lparr>key = 5, dtor = 7\<rparr>, 1 := \<lparr>key = 3, dtor = 2\<rparr>, 2 := \<lparr>key = 6, dtor = 8\<rparr>),
      tls_slots = {3, 5, 6},
      tls_value = (\<lambda>_ _. 0)(1 := (\<lambda>_. 0)(5 := 9, 6 := 4))\<rparr>)) 1 4 = 0"
proof -
  define W :: tss_world where "W =
     \<lparr>impl_tss_dtor_tbl = (\<lambda>_. \<lparr>key = 0, dtor = 0\<rparr>)
        (0 := \<lparr>key = 5, dtor = 7\<rparr>, 1 := \<lparr>key = 3, dtor = 2\<rparr>, 2 := \<lparr>key = 6, dtor = 8\<rparr>),
      tls_slots = {3, 5, 6},
      tls_value = (\<lambda>_ _. 0)(1 := (\<lambda>_. 0)(5 := 9, 6 := 4))\<rparr>"
  note T = dtor_sweep_calls [where run = dtor_no_effect and self = 1 and w = W and n = 3
      and k = 4 and d = 1 and a = 3 and v = 11]
  note U = dtor_sweep_calls [where run = dtor_no_effect and self = 1 and w = W and d = 0
      and r = 4 and kp = "Some 0" and b = 4 and ?w1.0 = "snd (TlsAlloc 4 W)"]
  have quiet: "\<forall>d' v' u. impl_tss_dtor_tbl (dtor_no_effect d' v' u) = impl_tss_dtor_tbl u \<and>
      tls_value (dtor_no_effect d' v' u) 1 = tls_value u 1"
    by (simp add: dtor_no_effect_def)
  have eval: "concat (map (spec_dtor_calls 1 W) [0..<EMULATED_THREADS_TSS_DTOR_SLOTNUM]) =
      [(5, 7, 9), (6, 8, 4)]"
    unfolding W_def by code_simp
  have prefix: "3 < (64::nat) \<and> (\<forall>j. dtor (impl_tss_dtor_tbl W j) \<noteq> 0 \<longleftrightarrow> j < 3)"
    by (auto simp add: W_def)
  have once: "0 < EMULATED_THREADS_TSS_DTOR_SLOTNUM \<and>
      (\<forall>j<EMULATED_THREADS_TSS_DTOR_SLOTNUM.
         dtor (impl_tss_dtor_tbl W j) \<noteq> 0 \<and> key (impl_tss_dtor_tbl W j) = 5 \<longleftrightarrow> j = 0) \<and>
      tls_value W 1 5 \<noteq> 0"
    by (auto simp add: W_def EMULATED_THREADS_TSS_DTOR_SLOTNUM_def)
  have null3: "tls_value W 1 3 = 0"
    by (simp add: W_def)
  have slot3: "3 \<in> tls_slots W"
    by (simp add: W_def)
  have created: "tss_create 4 (Some 0) 0 W = Inr (thrd_success, 4, snd (TlsAlloc 4 W))"
    by (simp add: tss_create_no_dtor)
  note Q = T [THEN conjunct2, THEN conjunct2, THEN conjunct1, THEN mp, OF quiet]
  have c1: "snd (impl_tss_dtor_invoke dtor_no_effect 1 W) = [(5, 7, 9), (6, 8, 4)]"
    using Q [THEN conjunct1] unfolding eval .
  have c2: "filter (\<lambda>c. fst c = 5) (snd (impl_tss_dtor_invoke dtor_no_effect 1 W)) =
      [(5, dtor (impl_tss_dtor_tbl W 0), tls_value W 1 5)]"
    using once by (rule Q [THEN conjunct2, THEN conjunct2, rule_format])
  have c3: "filter (\<lambda>c. fst c = 3) (snd (impl_tss_dtor_invoke dtor_no_effect 1 W)) = []"
    using Q [THEN conjunct2, THEN conjunct1, rule_format, of 3] null3 by simp
  have c4: "impl_tss_dtor_register 4 1 W =
      (0, W\<lparr>impl_tss_dtor_tbl := (impl_tss_dtor_tbl W)(3 := \<lparr>key = 4, dtor = 1\<rparr>)\<rparr>)"
    using prefix by (rule T [THEN conjunct2, THEN conjunct1, THEN mp])
  have c5: "tls_value (snd (tss_set 1 3 11 W)) 1 3 = 11"
    using slot3
    by (rule T [THEN conjunct2, THEN conjunct2, THEN conjunct2, THEN conjunct1, THEN mp,
          THEN conjunct1])
  have c6: "tls_value (snd (TlsAlloc 4 W)) 1 4 = 0"
    using created
    by (rule U [THEN conjunct2, THEN conjunct2, THEN conjunct2, THEN conjunct2, THEN mp])
  from c1 c2 c3 c4 c5 created c6 show ?thesis
    unfolding W_def by simp
qed

subsection \<open>C7: the kinds \<^verbatim>\<open>mtx_init\<close> accepts\<close>

text \<open>
  C7: \<^verbatim>\<open>mtx_init\<close> returns \<^verbatim>\<open>thrd_success\<close> and constructs the critical section
  for each of the six kinds 0, 1, 2, 4, 5, 6; for every other value of \<^verbatim>\<open>type\<close> it
  returns \<^verbatim>\<open>thrd_error\<close> and leaves the storage as it was.
\<close>

theorem mtx_init_kinds:
  "mtx_init (Some storage) type =
     (if type \<in> {0, 1, 2, 4, 5, 6}
      then Inr (thrd_success, Some InitializeCriticalSection)
      else Inr (thrd_error, storage))"
  by (simp add: mtx_init_def mtx_plain_def mtx_timed_def mtx_try_def mtx_recursive_def)

subsection \<open>C8: \<^verbatim>\<open>thrd_sleep\<close> with a pointer for the remaining time\<close>

text \<open>
  C8: a call of \<^verbatim>\<open>thrd_sleep\<close> with a non-null \<^verbatim>\<open>remaining\<close> never reaches
  \<^verbatim>\<open>Sleep\<close> and never returns a value: it stops at an assertion, whatever
  \<^verbatim>\<open>time_point\<close> is.
\<close>

theorem thrd_sleep_remaining_rejected:
  "thrd_sleep time_point (Some remaining) = Inl Assertion_failed"
  by (simp add: thrd_sleep_def split: option.split)

subsection \<open>C9: \<^verbatim>\<open>tss_delete\<close> and the destructor table\<close>

text \<open>
  C9: for every slot and every state, \<^verbatim>\<open>tss_delete\<close> leaves the destructor table
  (and the values of the threads) as they were; only the native index is released.
\<close>

theorem tss_delete_keeps_table:
  "impl_tss_dtor_tbl (tss_delete k w) = impl_tss_dtor_tbl w \<and>
   tls_slots (tss_delete k w) = tls_slots w - {k} \<and>
   tls_value (tss_delete k w) = tls_value w"
  by (simp add: tss_delete_def TlsFree_def)

subsection \<open>C10: the first attempt comes before the deadline check\<close>

text \<open>
  C10: for a mutex that no other thread holds, \<^verbatim>\<open>mtx_timedlock\<close> returns
  \<^verbatim>\<open>thrd_success\<close> at its first attempt and the caller owns the mutex, whatever the
  deadline and the clock are (so also for a deadline in the past); and whenever the call
  returns \<^verbatim>\<open>thrd_timedout\<close>, the mutex was held by another thread at the first
  attempt.
\<close>

theorem mtx_timedlock_tries_before_deadline:
  "(\<not> held_by_other self cs \<longrightarrow>
      mtx_timedlock (Suc n) e self (Some cs) (Some ts) =
        Some (Inr (thrd_success, snd (TryEnterCriticalSection self cs), 0)) \<and>
      OwningThread (snd (TryEnterCriticalSection self cs)) = self) \<and>
   (mtx_timedlock fuel e self (Some cs) (Some ts) = Some (Inr (thrd_timedout, cs', k)) \<longrightarrow>
      held_by_other self cs)"
proof (intro conjI impI)
  assume free: "\<not> held_by_other self cs"
  then show "mtx_timedlock (Suc n) e self (Some cs) (Some ts) =
      Some (Inr (thrd_success, snd (TryEnterCriticalSection self cs), 0))"
    by (simp add: mtx_timedlock_def mtx_timedlock_loop_acquire del: mtx_timedlock_loop.simps)
  from free show "OwningThread (snd (TryEnterCriticalSection self cs)) = self"
    by (rule TryEnterCriticalSection_owner)
next
  assume r: "mtx_timedlock fuel e self (Some cs) (Some ts) = Some (Inr (thrd_timedout, cs', k))"
  show "held_by_other self cs"
  proof (rule ccontr)
    assume free: "\<not> held_by_other self cs"
    show False
    proof (cases fuel)
      case 0
      with r show False by (simp add: mtx_timedlock_def)
    next
      case (Suc m)
      with r free show False
        by (simp add: mtx_timedlock_def mtx_trylock_not_held_by_other
              thrd_timedout_def thrd_success_def)
    qed
  qed
qed

text \<open>
  Witness for C10, with a deadline one second in the past: a free mutex is acquired; a
  mutex held by thread 2 gives \<^verbatim>\<open>thrd_timedout\<close>.
\<close>

theorem mtx_timedlock_tries_before_deadline_witness:
  "mtx_timedlock 1 \<lparr>clock = (\<lambda>i. \<lparr>tv_sec = 100, tv_nsec = 0\<rparr>), others = (\<lambda>i cs. cs)\<rparr> 1
     (Some \<lparr>OwningThread = 0, RecursionCount = 0\<rparr>) (Some \<lparr>tv_sec = 99, tv_nsec = 0\<rparr>)
     = Some (Inr (thrd_success, \<lparr>OwningThread = 1, RecursionCount = 1\<rparr>, 0)) \<and>
   impl_abs2relmsec \<lparr>tv_sec = 99, tv_nsec = 0\<rparr> \<lparr>tv_sec = 100, tv_nsec = 0\<rparr> = 0 \<and>
   mtx_timedlock 1 \<lparr>clock = (\<lambda>i. \<lparr>tv_sec = 100, tv_nsec = 0\<rparr>), others = (\<lambda>i cs. cs)\<rparr> 1
     (Some \<lparr>OwningThread = 2, RecursionCount = 1\<rparr>) (Some \<lparr>tv_sec = 99, tv_nsec = 0\<rparr>)
     = Some (Inr (thrd_timedout, \<lparr>OwningThread = 2, RecursionCount = 1\<rparr>, 0)) \<and>
   held_by_other 1 \<lparr>OwningThread = 2, RecursionCount = 1\<rparr>"
  using
    mtx_timedlock_tries_before_deadline [of 1 "\<lparr>OwningThread = 0, RecursionCount = 0\<rparr>" 0
      "\<lparr>clock = (\<lambda>i. \<lparr>tv_sec = 100, tv_nsec = 0\<rparr>), others = (\<lambda>i cs. cs)\<rparr>"
      "\<lparr>tv_sec = 99, tv_nsec = 0\<rparr>"]
    mtx_timedlock_tries_before_deadline [of 1 "\<lparr>OwningThread = 2, RecursionCount = 1\<rparr>" 0
      "\<lparr>clock = (\<lambda>i. \<lparr>tv_sec = 100, tv_nsec = 0\<rparr>), others = (\<lambda>i cs. cs)\<rparr>"
      "\<lparr>tv_sec = 99, tv_nsec = 0\<rparr>" "Suc 0" "\<lparr>OwningThread = 2, RecursionCount = 1\<rparr>" 0]
  by (simp add: held_by_other_def impl_abs2relmsec_def impl_timespec2msec_def word_sless_alt
        signed_divide_int_def TryEnterCriticalSection_def mtx_timedlock_def mtx_trylock_def
        thrd_busy_def thrd_success_def)

end
